theory Spec2Isabelle
  imports Main "HOL-Library.AList"
begin

section \<open>Ric Pac Soe: the room and rule engine of server.js\<close>

text \<open>
  The embedding follows the latest revision of \<^verbatim>\<open>server.js\<close> (the ESM server with
  \<^verbatim>\<open>emitRoomStateOnce\<close>): the board helpers, the three rule evaluators
  (\<^verbatim>\<open>scoreMisplacement\<close>, \<^verbatim>\<open>resolveEliminationsFrom\<close>, \<^verbatim>\<open>scoreThreeInRow\<close>) and the
  socket handlers \<^verbatim>\<open>leaveRoom\<close>, \<^verbatim>\<open>newGame\<close>, \<^verbatim>\<open>placePiece\<close>, \<^verbatim>\<open>moveBlocker\<close> and
  \<^verbatim>\<open>disconnect\<close>.

  Conventions.
  \<^item> Row and column payloads are integers (\<open>int\<close>); a socket id and a room id are strings.
  \<^item> A JavaScript number that the handlers store is an integer or \<^verbatim>\<open>NaN\<close> (type \<open>num\<close>).
  \<^item> A JavaScript array is a list; a write beyond its end extends it with holes, a hole
    or an index beyond the end reads as \<^verbatim>\<open>undefined\<close> (\<open>None\<close>).
  \<^item> In-place mutation is explicit state passing: every function returns the new board or
    room.
\<close>

subsection \<open>Cells and the board\<close>

text \<open>\<^verbatim>\<open>SYMBOLS = { R, P, S }\<close>; a cell is \<^verbatim>\<open>null\<close>, \<^verbatim>\<open>{ type: 'BLOCKER' }\<close> or
  \<^verbatim>\<open>{ player, sym }\<close>.\<close>

datatype sym = R | P | S

datatype cell = Empty | Blocker | Piece nat sym

type_synonym board = "cell list list"

type_synonym pos = "int \<times> int"

text \<open>A highlight is \<^verbatim>\<open>{ cells: [{r,c}], by: playerIdx }\<close>.\<close>

type_synonym highlight = "pos list \<times> nat"

definition BOARD_SIZE :: int where
  "BOARD_SIZE = 8"

text \<open>\<^verbatim>\<open>WEAK_TO = { S: 'R', P: 'S', R: 'P' }\<close>: defender symbol to the attacker symbol
  beating it.\<close>

fun WEAK_TO :: "sym \<Rightarrow> sym" where
  "WEAK_TO S = R"
| "WEAK_TO P = S"
| "WEAK_TO R = P"

definition createEmptyBoard :: board where
  "createEmptyBoard = replicate (nat BOARD_SIZE) (replicate (nat BOARD_SIZE) Empty)"

definition inBounds :: "int \<Rightarrow> int \<Rightarrow> bool" where
  "inBounds r c \<longleftrightarrow> r \<ge> 0 \<and> r < BOARD_SIZE \<and> c \<ge> 0 \<and> c < BOARD_SIZE"

text \<open>\<^verbatim>\<open>board[r][c]\<close> and \<^verbatim>\<open>board[r][c] = v\<close>; every read and write of the source is
  guarded by \<open>inBounds\<close>.\<close>

definition cell_at :: "board \<Rightarrow> int \<Rightarrow> int \<Rightarrow> cell" where
  "cell_at b r c = b ! nat r ! nat c"

definition set_cell :: "board \<Rightarrow> int \<Rightarrow> int \<Rightarrow> cell \<Rightarrow> board" where
  "set_cell b r c v = b[nat r := (b ! nat r)[nat c := v]]"

text \<open>The shape every board of the server has: 8 rows of 8 cells.\<close>

definition wf_board :: "board \<Rightarrow> bool" where
  "wf_board b \<longleftrightarrow> length b = nat BOARD_SIZE \<and> list_all (\<lambda>row. length row = nat BOARD_SIZE) b"

text \<open>\<^verbatim>\<open>sameOwnerSym(board, r, c, ref)\<close>, with \<open>ref = { player: p, sym: s }\<close>.\<close>

definition sameOwnerSym :: "board \<Rightarrow> int \<Rightarrow> int \<Rightarrow> nat \<Rightarrow> sym \<Rightarrow> bool" where
  "sameOwnerSym b r c p s =
     (case cell_at b r c of Piece q t \<Rightarrow> q = p \<and> t = s | _ \<Rightarrow> False)"

text \<open>\<^verbatim>\<open>boardFull\<close>: no cell is \<^verbatim>\<open>null\<close>.\<close>

definition boardFull :: "board \<Rightarrow> bool" where
  "boardFull b \<longleftrightarrow>
     list_all (\<lambda>r. list_all (\<lambda>c. cell_at b r c \<noteq> Empty) [0..BOARD_SIZE - 1]) [0..BOARD_SIZE - 1]"

text \<open>\<^verbatim>\<open>xs.findIndex(pred)\<close>; \<open>None\<close> is the result \<^verbatim>\<open>-1\<close>.\<close>

fun findIndex :: "('a \<Rightarrow> bool) \<Rightarrow> 'a list \<Rightarrow> nat option" where
  "findIndex pred [] = None"
| "findIndex pred (x # xs) =
     (if pred x then Some 0 else map_option Suc (findIndex pred xs))"

text \<open>\<^verbatim>\<open>v && !v.type\<close>: the cell holds a piece.\<close>

definition is_piece :: "cell \<Rightarrow> bool" where
  "is_piece v = (case v of Piece q t \<Rightarrow> True | _ \<Rightarrow> False)"

subsection \<open>Directions and the scanning loops\<close>

text \<open>The literal \<^verbatim>\<open>deltas = [[0,1],[1,0],[1,1],[1,-1]]\<close> of the three evaluators. The four
  entries are a datatype, so that the scanning loops are total functions.\<close>

datatype delta = D_0_1 | D_1_0 | D_1_1 | D_1_m1

fun dr :: "delta \<Rightarrow> int" where
  "dr D_0_1 = 0" | "dr D_1_0 = 1" | "dr D_1_1 = 1" | "dr D_1_m1 = 1"

fun dc :: "delta \<Rightarrow> int" where
  "dc D_0_1 = 1" | "dc D_1_0 = 0" | "dc D_1_1 = 1" | "dc D_1_m1 = - 1"

definition deltas :: "delta list" where
  "deltas = [D_0_1, D_1_0, D_1_1, D_1_m1]"

text \<open>The backward loop of \<^verbatim>\<open>resolveEliminationsFrom\<close>,
  \<^verbatim>\<open>while (inBounds(br, bc) && sameOwnerSym(board, br, bc, placed)) { line.unshift({r: br, c: bc}); br -= dr; bc -= dc }\<close>:
  the cells it prepends, the farthest first.\<close>

function backward :: "board \<Rightarrow> nat \<Rightarrow> sym \<Rightarrow> delta \<Rightarrow> int \<Rightarrow> int \<Rightarrow> pos list" where
  "backward b p s d br bc =
     (if inBounds br bc \<and> sameOwnerSym b br bc p s
      then backward b p s d (br - dr d) (bc - dc d) @ [(br, bc)]
      else [])"
  by pat_completeness auto
termination
proof (relation "measure (\<lambda>(b, p, s, d, br, bc). nat (if d = D_0_1 then bc + 1 else br + 1))")
  fix b p s d br bc
  assume "inBounds br bc \<and> sameOwnerSym b br bc p s"
  then show "((b, p, s, d, br - dr d, bc - dc d), (b, p, s, d, br, bc))
      \<in> measure (\<lambda>(b, p, s, d, br, bc). nat (if d = D_0_1 then bc + 1 else br + 1))"
    by (cases d) (simp_all add: inBounds_def)
qed simp

text \<open>The forward loop
  \<^verbatim>\<open>while (inBounds(fr, fc) && sameOwnerSym(board, fr, fc, placed)) { line.push({r: fr, c: fc}); fr += dr; fc += dc }\<close>.\<close>

function forward :: "board \<Rightarrow> nat \<Rightarrow> sym \<Rightarrow> delta \<Rightarrow> int \<Rightarrow> int \<Rightarrow> pos list" where
  "forward b p s d fr fc =
     (if inBounds fr fc \<and> sameOwnerSym b fr fc p s
      then (fr, fc) # forward b p s d (fr + dr d) (fc + dc d)
      else [])"
  by pat_completeness auto
termination
proof (relation "measure (\<lambda>(b, p, s, d, fr, fc). nat (if d = D_0_1 then BOARD_SIZE - fc else BOARD_SIZE - fr))")
  fix b p s d fr fc
  assume "inBounds fr fc \<and> sameOwnerSym b fr fc p s"
  then show "((b, p, s, d, fr + dr d, fc + dc d), (b, p, s, d, fr, fc))
      \<in> measure (\<lambda>(b, p, s, d, fr, fc). nat (if d = D_0_1 then BOARD_SIZE - fc else BOARD_SIZE - fr))"
    by (cases d) (simp_all add: inBounds_def)
qed simp

declare backward.simps [simp del] forward.simps [simp del]

text \<open>The line through \<open>(r, c)\<close> that \<^verbatim>\<open>resolveEliminationsFrom\<close> builds:
  \<^verbatim>\<open>line = [{r, c}]\<close>, extended backward and forward.\<close>

definition line_through :: "board \<Rightarrow> nat \<Rightarrow> sym \<Rightarrow> delta \<Rightarrow> int \<Rightarrow> int \<Rightarrow> pos list" where
  "line_through b p s d r c =
     backward b p s d (r - dr d) (c - dc d) @ [(r, c)] @ forward b p s d (r + dr d) (c + dc d)"

subsection \<open>Elimination\<close>

text \<open>The closure \<^verbatim>\<open>tryEliminate(rr, cc)\<close> of \<^verbatim>\<open>resolveEliminationsFrom\<close>; \<open>p\<close> and \<open>s\<close> are
  \<^verbatim>\<open>placed.player\<close> and \<^verbatim>\<open>placed.sym\<close>. It returns the board, the count and the highlights
  it pushes.\<close>

definition tryEliminate ::
  "board \<Rightarrow> nat \<Rightarrow> sym \<Rightarrow> nat \<Rightarrow> int \<Rightarrow> int \<Rightarrow> board \<times> nat \<times> highlight list" where
  "tryEliminate b p s byPlayerIdx rr cc =
     (if \<not> inBounds rr cc then (b, 0, [])
      else case cell_at b rr cc of
             Piece q t \<Rightarrow>
               if q = p then (b, 0, [])
               else if WEAK_TO t = s
                 then (set_cell b rr cc Empty, 1, [([(rr, cc)], byPlayerIdx)])
                 else (b, 0, [])
           | _ \<Rightarrow> (b, 0, []))"

text \<open>The loop
  \<^verbatim>\<open>for (let i = 0; i < line.length - 1; i++) { a = line[i]; b = line[i+1]; if (!includesNew) continue; ...; break }\<close>:
  the first pair of neighbours in the line that includes the placed cell, if any.\<close>

fun first_pair :: "pos list \<Rightarrow> pos \<Rightarrow> (pos \<times> pos) option" where
  "first_pair (a # b # rest) new =
     (if a = new \<or> b = new then Some (a, b) else first_pair (b # rest) new)"
| "first_pair _ new = None"

text \<open>The body of \<^verbatim>\<open>for (const [dr, dc] of deltas)\<close> in \<^verbatim>\<open>resolveEliminationsFrom\<close>, on the
  running \<open>(board, removed, highlights)\<close>.\<close>

definition eliminate_dir ::
  "nat \<Rightarrow> sym \<Rightarrow> nat \<Rightarrow> int \<Rightarrow> int \<Rightarrow> board \<times> nat \<times> highlight list \<Rightarrow> delta
     \<Rightarrow> board \<times> nat \<times> highlight list" where
  "eliminate_dir p s byPlayerIdx r c st d =
     (case st of (b, removed, hl) \<Rightarrow>
        (case first_pair (line_through b p s d r c) (r, c) of
           None \<Rightarrow> (b, removed, hl)
         | Some ((ar, ac), (br, bc)) \<Rightarrow>
             (case tryEliminate b p s byPlayerIdx (ar - dr d) (ac - dc d) of
                (b1, n1, h1) \<Rightarrow>
                  (case tryEliminate b1 p s byPlayerIdx (br + dr d) (bc + dc d) of
                     (b2, n2, h2) \<Rightarrow> (b2, removed + n1 + n2, hl @ h1 @ h2)))))"

definition resolveEliminationsFrom ::
  "board \<Rightarrow> int \<Rightarrow> int \<Rightarrow> nat \<Rightarrow> board \<times> nat \<times> highlight list" where
  "resolveEliminationsFrom b r c byPlayerIdx =
     (case cell_at b r c of
        Piece p s \<Rightarrow> foldl (eliminate_dir p s byPlayerIdx r c) (b, 0, []) deltas
      | _ \<Rightarrow> (b, 0, []))"

subsection \<open>Three in a row\<close>

text \<open>The backward segment loop of \<^verbatim>\<open>scoreThreeInRow\<close>,
  \<^verbatim>\<open>while (inBounds(br, bc) && board[br][bc] && !board[br][bc].type) { const t = board[br][bc]; if (t.player === player && t.sym === sym) { seg.unshift({r: br, c: bc}); br -= dr; bc -= dc } else break }\<close>.\<close>

function seg_backward :: "board \<Rightarrow> nat \<Rightarrow> sym \<Rightarrow> delta \<Rightarrow> int \<Rightarrow> int \<Rightarrow> pos list" where
  "seg_backward b player sy d br bc =
     (if inBounds br bc \<and> is_piece (cell_at b br bc)
      then (case cell_at b br bc of
              Piece q t \<Rightarrow>
                if q = player \<and> t = sy
                then seg_backward b player sy d (br - dr d) (bc - dc d) @ [(br, bc)]
                else []
            | _ \<Rightarrow> [])
      else [])"
  by pat_completeness auto
termination
proof (relation "measure (\<lambda>(b, p, s, d, br, bc). nat (if d = D_0_1 then bc + 1 else br + 1))")
  fix b player sy d br bc
  assume "inBounds br bc \<and> is_piece (cell_at b br bc)"
  then show "((b, player, sy, d, br - dr d, bc - dc d), (b, player, sy, d, br, bc))
      \<in> measure (\<lambda>(b, p, s, d, br, bc). nat (if d = D_0_1 then bc + 1 else br + 1))"
    by (cases d) (simp_all add: inBounds_def)
qed simp

text \<open>The forward segment loop, with \<^verbatim>\<open>seg.push({r: fr, c: fc}); fr += dr; fc += dc\<close>.\<close>

function seg_forward :: "board \<Rightarrow> nat \<Rightarrow> sym \<Rightarrow> delta \<Rightarrow> int \<Rightarrow> int \<Rightarrow> pos list" where
  "seg_forward b player sy d fr fc =
     (if inBounds fr fc \<and> is_piece (cell_at b fr fc)
      then (case cell_at b fr fc of
              Piece q t \<Rightarrow>
                if q = player \<and> t = sy
                then (fr, fc) # seg_forward b player sy d (fr + dr d) (fc + dc d)
                else []
            | _ \<Rightarrow> [])
      else [])"
  by pat_completeness auto
termination
proof (relation "measure (\<lambda>(b, p, s, d, fr, fc). nat (if d = D_0_1 then BOARD_SIZE - fc else BOARD_SIZE - fr))")
  fix b player sy d fr fc
  assume "inBounds fr fc \<and> is_piece (cell_at b fr fc)"
  then show "((b, player, sy, d, fr + dr d, fc + dc d), (b, player, sy, d, fr, fc))
      \<in> measure (\<lambda>(b, p, s, d, fr, fc). nat (if d = D_0_1 then BOARD_SIZE - fc else BOARD_SIZE - fr))"
    by (cases d) (simp_all add: inBounds_def)
qed simp

declare seg_backward.simps [simp del] seg_forward.simps [simp del]

text \<open>\<^verbatim>\<open>seg = [{r, c}]\<close>, extended by the two loops.\<close>

definition seg_through :: "board \<Rightarrow> nat \<Rightarrow> sym \<Rightarrow> delta \<Rightarrow> int \<Rightarrow> int \<Rightarrow> pos list" where
  "seg_through b player sy d r c =
     seg_backward b player sy d (r - dr d) (c - dc d) @ [(r, c)]
       @ seg_forward b player sy d (r + dr d) (c + dc d)"

text \<open>The body of \<^verbatim>\<open>for (const [dr, dc] of deltas)\<close> in \<^verbatim>\<open>scoreThreeInRow\<close>, on the running
  \<open>(points, highlights)\<close>; \<open>idx\<close> is \<^verbatim>\<open>seg.findIndex(...)\<close>, \<open>- 1\<close> when nothing is found.\<close>

definition three_dir ::
  "board \<Rightarrow> nat \<Rightarrow> sym \<Rightarrow> nat \<Rightarrow> int \<Rightarrow> int \<Rightarrow> nat \<times> highlight list \<Rightarrow> delta
     \<Rightarrow> nat \<times> highlight list" where
  "three_dir b player sy byPlayerIdx r c st d =
     (case st of (points, hl) \<Rightarrow>
        (let seg = seg_through b player sy d r c in
         if length seg \<ge> 3 then
           (let idx = (case findIndex (\<lambda>q. q = (r, c)) seg of None \<Rightarrow> - 1 | Some k \<Rightarrow> int k);
                start = nat (max 0 (min (idx - 1) (int (length seg) - 3)));
                triple = [seg ! start, seg ! (start + 1), seg ! (start + 2)]
            in (points + 1, hl @ [(triple, byPlayerIdx)]))
         else (points, hl)))"

definition scoreThreeInRow :: "board \<Rightarrow> int \<Rightarrow> int \<Rightarrow> nat \<Rightarrow> nat \<times> highlight list" where
  "scoreThreeInRow b r c byPlayerIdx =
     (case cell_at b r c of
        Piece p s \<Rightarrow> foldl (three_dir b p s byPlayerIdx r c) (0, []) deltas
      | _ \<Rightarrow> (0, []))"

subsection \<open>Misplacement\<close>

text \<open>The three windows of a direction, in the order of the source: ending at, centred at,
  starting at \<open>(r, c)\<close>.\<close>

definition windows :: "int \<Rightarrow> int \<Rightarrow> delta \<Rightarrow> pos list list" where
  "windows r c d =
     [[(r - 2 * dr d, c - 2 * dc d), (r - 1 * dr d, c - 1 * dc d), (r, c)],
      [(r - 1 * dr d, c - 1 * dc d), (r, c), (r + 1 * dr d, c + 1 * dc d)],
      [(r, c), (r + 1 * dr d, c + 1 * dc d), (r + 2 * dr d, c + 2 * dc d)]]"

text \<open>The inner loop \<^verbatim>\<open>for (const pos of win)\<close>: the tiles \<^verbatim>\<open>{ ...pos, ...t }\<close> of the window
  as (position, player, symbol), or \<open>None\<close> when \<^verbatim>\<open>ok\<close> becomes false.\<close>

fun window_tiles :: "board \<Rightarrow> pos list \<Rightarrow> (pos \<times> nat \<times> sym) list option" where
  "window_tiles b [] = Some []"
| "window_tiles b ((wr, wc) # rest) =
     (if \<not> inBounds wr wc then None
      else case cell_at b wr wc of
             Piece q t \<Rightarrow> map_option ((#) ((wr, wc), q, t)) (window_tiles b rest)
           | _ \<Rightarrow> None)"

text \<open>One iteration of \<^verbatim>\<open>for (const win of windows)\<close> after the \<^verbatim>\<open>directionAwarded\<close> test:
  the opponent the window awards, if it qualifies.\<close>

definition window_award :: "board \<Rightarrow> nat \<Rightarrow> sym \<Rightarrow> int \<Rightarrow> int \<Rightarrow> pos list \<Rightarrow> nat option" where
  "window_award b pPlayer pSym r c win =
     (case window_tiles b win of
        None \<Rightarrow> None
      | Some tiles \<Rightarrow>
          if \<not> list_ex (\<lambda>(q, _). q = (r, c)) tiles then None
          else (let others = filter (\<lambda>(q, _). \<not> q = (r, c)) tiles in
                if length others \<noteq> 2 then None
                else (let bothStronger =
                            (list_all (\<lambda>(_, _, t). t = WEAK_TO pSym) others \<and>
                             list_all (\<lambda>(_, q, _). q \<noteq> pPlayer) others);
                          sameOpponentOwner =
                            (bothStronger \<and> fst (snd (others ! 0)) = fst (snd (others ! 1)))
                      in if bothStronger \<and> sameOpponentOwner
                         then Some (fst (snd (others ! 0))) else None)))"

text \<open>The loop over the windows of one direction with its \<^verbatim>\<open>directionAwarded\<close> flag: the
  first qualifying window awards, the later ones are skipped.\<close>

fun misplacement_windows ::
  "board \<Rightarrow> nat \<Rightarrow> sym \<Rightarrow> int \<Rightarrow> int \<Rightarrow> pos list list \<Rightarrow> (nat \<times> pos list) option" where
  "misplacement_windows b pPlayer pSym r c [] = None"
| "misplacement_windows b pPlayer pSym r c (win # wins) =
     (case window_award b pPlayer pSym r c win of
        Some opp \<Rightarrow> Some (opp, win)
      | None \<Rightarrow> misplacement_windows b pPlayer pSym r c wins)"

text \<open>The body of \<^verbatim>\<open>for (const [dr, dc] of deltas)\<close> in \<^verbatim>\<open>scoreMisplacement\<close>, on the running
  \<open>(awarded, highlights)\<close>; an award is \<^verbatim>\<open>{ player: opp, points: 1 }\<close>.\<close>

definition misplacement_dir ::
  "board \<Rightarrow> nat \<Rightarrow> sym \<Rightarrow> int \<Rightarrow> int \<Rightarrow> (nat \<times> nat) list \<times> highlight list \<Rightarrow> delta
     \<Rightarrow> (nat \<times> nat) list \<times> highlight list" where
  "misplacement_dir b pPlayer pSym r c st d =
     (case st of (awarded, hl) \<Rightarrow>
        (case misplacement_windows b pPlayer pSym r c (windows r c d) of
           None \<Rightarrow> (awarded, hl)
         | Some (opp, win) \<Rightarrow> (awarded @ [(opp, 1)], hl @ [(win, opp)])))"

definition scoreMisplacement :: "board \<Rightarrow> int \<Rightarrow> int \<Rightarrow> (nat \<times> nat) list \<times> highlight list" where
  "scoreMisplacement b r c =
     (case cell_at b r c of
        Piece pPlayer pSym \<Rightarrow> foldl (misplacement_dir b pPlayer pSym r c) ([], []) deltas
      | _ \<Rightarrow> ([], []))"

subsection \<open>Numbers, arrays and payload values\<close>

text \<open>The numbers the handlers store: an integer or \<^verbatim>\<open>NaN\<close>.\<close>

datatype num = NaN | Num int

fun num_add :: "num \<Rightarrow> int \<Rightarrow> num" where
  "num_add NaN n = NaN"
| "num_add (Num a) n = Num (a + n)"

text \<open>\<^verbatim>\<open>a >= b\<close>, \<^verbatim>\<open>a <= 0\<close>, \<^verbatim>\<open>a > 0\<close>: every comparison with \<^verbatim>\<open>NaN\<close> is false.\<close>

fun num_ge :: "num \<Rightarrow> num \<Rightarrow> bool" where
  "num_ge (Num a) (Num b) = (a \<ge> b)"
| "num_ge _ _ = False"

fun num_le0 :: "num \<Rightarrow> bool" where
  "num_le0 (Num a) = (a \<le> 0)"
| "num_le0 NaN = False"

fun num_gt0 :: "num \<Rightarrow> bool" where
  "num_gt0 (Num a) = (a > 0)"
| "num_gt0 NaN = False"

text \<open>An array with holes: \<^verbatim>\<open>xs[i]\<close> (\<open>None\<close> is \<^verbatim>\<open>undefined\<close>), \<^verbatim>\<open>xs[i] = v\<close> (a write
  beyond the end extends the array with holes) and \<^verbatim>\<open>xs.splice(i, 1)\<close>.\<close>

definition js_get :: "'a option list \<Rightarrow> nat \<Rightarrow> 'a option" where
  "js_get xs i = (if i < length xs then xs ! i else None)"

definition js_put :: "'a option list \<Rightarrow> nat \<Rightarrow> 'a \<Rightarrow> 'a option list" where
  "js_put xs i v =
     (if i < length xs then xs[i := Some v]
      else xs @ replicate (i - length xs) None @ [Some v])"

definition splice1 :: "nat \<Rightarrow> 'a list \<Rightarrow> 'a list" where
  "splice1 i xs = take i xs @ drop (Suc i) xs"

text \<open>A field of a \<^verbatim>\<open>newGame\<close> payload, as \<^verbatim>\<open>parseInt(v ?? dflt, 10)\<close> sees it: absent,
  \<^verbatim>\<open>null\<close>, or any other value, given by the UTF-16 code units (integers from 0 to 65535) of the string that
  \<^verbatim>\<open>parseInt\<close> first makes of it (a string is itself, the number 42 is \<^verbatim>\<open>'42'\<close>, 1e21 is
  \<^verbatim>\<open>'1e+21'\<close>, 2.5 is \<^verbatim>\<open>'2.5'\<close>, \<^verbatim>\<open>true\<close> is \<^verbatim>\<open>'true'\<close>, an object is
  \<^verbatim>\<open>'[object Object]'\<close>).\<close>

datatype jsval = Undefined | Null | JVal "int list"

text \<open>The code units of an ASCII text.\<close>

definition units :: "string \<Rightarrow> int list" where
  "units str = map of_char str"

text \<open>\<^verbatim>\<open>parseInt(string, 10)\<close>: leading white space is skipped, a sign is read, then the
  longest prefix of decimal digits; no digit gives \<^verbatim>\<open>NaN\<close>. With the radix 10 no
  \<^verbatim>\<open>0x\<close> prefix is read. White space is what the language trims: tab, line feed, vertical
  tab, form feed, carriage return, space, U+00A0, U+1680, U+2000 to U+200A, U+2028, U+2029,
  U+202F, U+205F, U+3000 and U+FEFF. The result is the integer the digits write; the
  Number that \<^verbatim>\<open>parseInt\<close> returns is that integer rounded, which differs only beyond
  \<open>2 ^ 53\<close> and ends in the same setting after the clamp below.\<close>

definition is_space :: "int \<Rightarrow> bool" where
  "is_space u \<longleftrightarrow>
     u \<in> set [0x09, 0x0A, 0x0B, 0x0C, 0x0D, 0x20, 0xA0, 0x1680, 0x2028, 0x2029, 0x202F,
               0x205F, 0x3000, 0xFEFF]
     \<or> (0x2000 \<le> u \<and> u \<le> 0x200A)"

definition is_digit :: "int \<Rightarrow> bool" where
  "is_digit u \<longleftrightarrow> 0x30 \<le> u \<and> u \<le> 0x39"

definition digit_val :: "int \<Rightarrow> int" where
  "digit_val u = u - 0x30"

definition parseInt_str :: "int list \<Rightarrow> num" where
  "parseInt_str str =
     (let s1 = dropWhile is_space str;
          sign = (if s1 \<noteq> [] \<and> hd s1 = 0x2D then - 1 else 1);
          s2 = (if s1 \<noteq> [] \<and> (hd s1 = 0x2D \<or> hd s1 = 0x2B) then tl s1 else s1);
          ds = takeWhile is_digit s2
      in if ds = [] then NaN
         else Num (sign * foldl (\<lambda>acc u. 10 * acc + digit_val u) 0 ds))"

text \<open>\<^verbatim>\<open>parseInt(v ?? dflt, 10)\<close>, the default \<open>dflt\<close> being an integer literal of the
  handler.\<close>

fun parseInt_or :: "jsval \<Rightarrow> int \<Rightarrow> num" where
  "parseInt_or Undefined dflt = Num dflt"
| "parseInt_or Null dflt = Num dflt"
| "parseInt_or (JVal str) dflt = parseInt_str str"

text \<open>\<^verbatim>\<open>Math.max(lo, Math.min(hi, x))\<close>: \<^verbatim>\<open>NaN\<close> is passed on by both.\<close>

fun clamp :: "int \<Rightarrow> int \<Rightarrow> num \<Rightarrow> num" where
  "clamp lo hi NaN = NaN"
| "clamp lo hi (Num x) = Num (max lo (min hi x))"

subsection \<open>Rooms\<close>

record member =
  socketId :: string
  name :: string

record settings =
  tilesPerSymbol :: num
  blockers :: num
  pointsToWin :: num

text \<open>The stock of one player, \<^verbatim>\<open>{ R, P, S }\<close>.\<close>

datatype stock = Stock num num num

fun stock_get :: "stock \<Rightarrow> sym \<Rightarrow> num" where
  "stock_get (Stock x y z) R = x"
| "stock_get (Stock x y z) P = y"
| "stock_get (Stock x y z) S = z"

text \<open>\<^verbatim>\<open>st[sym]--\<close>.\<close>

fun stock_dec :: "stock \<Rightarrow> sym \<Rightarrow> stock" where
  "stock_dec (Stock x y z) R = Stock (num_add x (- 1)) y z"
| "stock_dec (Stock x y z) P = Stock x (num_add y (- 1)) z"
| "stock_dec (Stock x y z) S = Stock x y (num_add z (- 1))"

text \<open>\<^verbatim>\<open>st.R + st.P + st.S === 0\<close>.\<close>

fun stock_is_zero :: "stock \<Rightarrow> bool" where
  "stock_is_zero (Stock (Num x) (Num y) (Num z)) = (x + y + z = 0)"
| "stock_is_zero _ = False"

text \<open>The decimal digits of a number, for the seat label \<^verbatim>\<open>`P${i + 1}`\<close>.\<close>

fun show_nat :: "nat \<Rightarrow> string" where
  "show_nat n =
     (if n < 10 then [char_of (48 + n)]
      else show_nat (n div 10) @ [char_of (48 + n mod 10)])"

declare show_nat.simps [simp del]

definition seat_label :: "nat \<Rightarrow> string" where
  "seat_label i = ''P'' @ show_nat (i + 1)"

text \<open>A winner is \<^verbatim>\<open>{ index: i, label: `P${i + 1}`, score: scores[i] }\<close>. The message
  templates of the handlers are the constructors of \<open>message\<close>, with the values they
  print.\<close>

type_synonym winner = "nat \<times> string \<times> num"

datatype message =
    NoMessage
  | YouLeft
  | NewGameStarted
  | WinsByReaching string num
  | UsedAllWins string winner
  | UsedAllTie string "winner list" num
  | BoardFullWins winner
  | BoardFullTie "winner list" num

text \<open>The room of \<^verbatim>\<open>ensureRoom\<close>, without its chat log (no handler below reads or writes
  it). The object \<^verbatim>\<open>lastPlayed\<close> is an association list from seat to symbol.\<close>

record room =
  roomId :: string
  settings :: settings
  players :: "member list"
  spectators :: "member list"
  turn :: nat
  lastPlayed :: "(nat \<times> sym) list"
  scores :: "num option list"
  stock :: "stock list"
  board :: board
  gameOver :: bool
  message :: message
  started :: bool
  updatedAt :: nat
  highlights :: "highlight list"

type_synonym rooms = "string \<rightharpoonup> room"

definition ensureRoom_new :: "string \<Rightarrow> nat \<Rightarrow> room" where
  "ensureRoom_new rid now =
     \<lparr> roomId = rid,
       settings = \<lparr> tilesPerSymbol = Num 10, blockers = Num 8, pointsToWin = Num 7 \<rparr>,
       players = [], spectators = [], turn = 0, lastPlayed = [],
       scores = [], stock = [], board = createEmptyBoard, gameOver = False,
       message = NoMessage, started = False, updatedAt = now, highlights = [] \<rparr>"

text \<open>\<^verbatim>\<open>emitRoomStateOnce\<close>: the state sent to the room, and the room with its highlights
  cleared.\<close>

definition emitRoomStateOnce :: "room \<Rightarrow> room \<times> room" where
  "emitRoomStateOnce room = (room, room\<lparr>highlights := []\<rparr>)"

text \<open>What a handler on a room does: an early \<^verbatim>\<open>return\<close> with nothing changed, or the state
  it emits and the room it leaves, or a \<^verbatim>\<open>TypeError\<close> thrown with the room as mutated so
  far.\<close>

datatype outcome = Rejected | Emitted room room | Threw room

definition emit :: "room \<Rightarrow> outcome" where
  "emit room = (case emitRoomStateOnce room of (sent, room') \<Rightarrow> Emitted sent room')"

text \<open>The room after the handler has run.\<close>

fun room_after :: "room \<Rightarrow> outcome \<Rightarrow> room" where
  "room_after room Rejected = room"
| "room_after room (Emitted sent room') = room'"
| "room_after room (Threw room') = room'"

text \<open>\<^verbatim>\<open>room.players[i].name || `P${i + 1}`\<close>.\<close>

definition display_name :: "member list \<Rightarrow> nat \<Rightarrow> string" where
  "display_name ps i = (if name (ps ! i) \<noteq> [] then name (ps ! i) else seat_label i)"

subsection \<open>Winners\<close>

text \<open>\<^verbatim>\<open>Math.max(...scores)\<close> on a non-empty array: a hole spreads as \<^verbatim>\<open>undefined\<close>, which
  is \<^verbatim>\<open>NaN\<close> as a number, and \<^verbatim>\<open>NaN\<close> wins.\<close>

fun max2 :: "num \<Rightarrow> num option \<Rightarrow> num" where
  "max2 (Num a) (Some (Num b)) = Num (max a b)"
| "max2 _ _ = NaN"

fun math_max :: "num option list \<Rightarrow> num" where
  "math_max [] = NaN"
| "math_max (Some x # xs) = foldl max2 x xs"
| "math_max (None # xs) = NaN"

text \<open>\<^verbatim>\<open>evaluateWinners(scores)\<close>. On the empty array \<^verbatim>\<open>Math.max()\<close> is \<^verbatim>\<open>-Infinity\<close> and the
  loop does not run; \<open>math_max []\<close> is not compared with anything either.\<close>

definition evaluateWinners :: "num option list \<Rightarrow> winner list" where
  "evaluateWinners sc =
     (case math_max sc of
        NaN \<Rightarrow> []
      | Num m \<Rightarrow>
          map (\<lambda>i. (i, seat_label i, Num m)) (filter (\<lambda>i. sc ! i = Some (Num m)) [0..<length sc]))"

subsection \<open>The \<^verbatim>\<open>joinRoom\<close> handler\<close>

text \<open>\<^verbatim>\<open>ensureRoom(roomId)\<close> on the registry.\<close>

definition ensureRoom :: "rooms \<Rightarrow> string \<Rightarrow> nat \<Rightarrow> rooms \<times> room" where
  "ensureRoom rs rid now =
     (case rs rid of
        None \<Rightarrow> (rs(rid \<mapsto> ensureRoom_new rid now), ensureRoom_new rid now)
      | Some room \<Rightarrow> (rs, room))"

text \<open>\<^verbatim>\<open>socket.on('joinRoom', ({ roomId, name, asSpectator }) => ...)\<close> on the room that
  \<^verbatim>\<open>ensureRoom\<close> returns; a missing name is the empty string.\<close>

definition joinRoom :: "room \<Rightarrow> string \<Rightarrow> string \<Rightarrow> bool \<Rightarrow> nat \<Rightarrow> outcome" where
  "joinRoom room sock nm asSpectator now =
     (let forceSpectator = started room in
      if \<not> forceSpectator \<and> \<not> asSpectator \<and> length (players room) < 4 then
        (let myIndex = length (players room);
             ps = players room @
                    [\<lparr> socketId = sock,
                       name = take 24 (if nm \<noteq> [] then nm else seat_label myIndex) \<rparr>];
             room1 = room\<lparr> players := ps \<rparr>;
             room2 = (if \<not> started room1 then
                        room1\<lparr> scores := replicate (length ps) (Some (Num 0)),
                                stock := replicate (length ps)
                                   (Stock (tilesPerSymbol (settings room1))
                                          (tilesPerSymbol (settings room1))
                                          (tilesPerSymbol (settings room1))) \<rparr>
                      else room1)
         in emit (room2\<lparr> updatedAt := now \<rparr>))
      else
        emit (room\<lparr> spectators := spectators room @
                        [\<lparr> socketId = sock,
                           name = take 24 (if nm \<noteq> [] then nm else ''Spectator'') \<rparr>],
                    updatedAt := now \<rparr>))"

subsection \<open>The \<^verbatim>\<open>placePiece\<close> handler\<close>

text \<open>\<^verbatim>\<open>['R', 'P', 'S'].includes(sym)\<close> on the payload string.\<close>

definition parse_sym :: "string \<Rightarrow> sym option" where
  "parse_sym str =
     (if str = ''R'' then Some R else if str = ''P'' then Some P
      else if str = ''S'' then Some S else None)"

text \<open>\<^verbatim>\<open>(room.stock[playerIdx]?.[sym] ?? 0) <= 0\<close>.\<close>

definition out_of_stock :: "stock list \<Rightarrow> nat \<Rightarrow> sym \<Rightarrow> bool" where
  "out_of_stock st playerIdx s =
     (if playerIdx < length st then num_le0 (stock_get (st ! playerIdx) s) else True)"

text \<open>\<^verbatim>\<open>room.scores[a.player] = (room.scores[a.player] ?? 0) + a.points\<close>.\<close>

definition award :: "num option list \<Rightarrow> nat \<times> nat \<Rightarrow> num option list" where
  "award sc a =
     (case a of (pl, pts) \<Rightarrow>
        js_put sc pl (num_add (case js_get sc pl of None \<Rightarrow> Num 0 | Some v \<Rightarrow> v) (int pts)))"

text \<open>\<^verbatim>\<open>room.scores[playerIdx] += n\<close>; \<^verbatim>\<open>undefined + n\<close> is \<^verbatim>\<open>NaN\<close>.\<close>

definition add_score :: "num option list \<Rightarrow> nat \<Rightarrow> nat \<Rightarrow> num option list" where
  "add_score sc playerIdx n =
     js_put sc playerIdx (case js_get sc playerIdx of None \<Rightarrow> NaN | Some v \<Rightarrow> num_add v (int n))"

text \<open>\<^verbatim>\<open>room.scores[playerIdx] ?? 0\<close>.\<close>

definition score_or_0 :: "num option list \<Rightarrow> nat \<Rightarrow> num" where
  "score_or_0 sc playerIdx = (case js_get sc playerIdx of None \<Rightarrow> Num 0 | Some v \<Rightarrow> v)"

text \<open>The placement and the three evaluations, in the order of the handler: the piece is
  put on the board and taken from the stock, the highlights are reset, then misplacement,
  elimination and three in a row update the scores and the highlights.\<close>

definition place_and_score :: "room \<Rightarrow> nat \<Rightarrow> int \<Rightarrow> int \<Rightarrow> sym \<Rightarrow> room" where
  "place_and_score room playerIdx r c s =
     (let b1 = set_cell (board room) r c (Piece playerIdx s);
          stock1 = (stock room)[playerIdx := stock_dec (stock room ! playerIdx) s];
          lastPlayed1 = AList.update playerIdx s (lastPlayed room)
      in case scoreMisplacement b1 r c of (awarded, mis_hl) \<Rightarrow>
         (let scores1 = foldl award (scores room) awarded;
              hl1 = mis_hl
          in case resolveEliminationsFrom b1 r c playerIdx of (b2, removed, elim_hl) \<Rightarrow>
             (let scores2 = (if removed > 0 then add_score scores1 playerIdx removed else scores1);
                  hl2 = (if removed > 0 then hl1 @ elim_hl else hl1)
              in case scoreThreeInRow b2 r c playerIdx of (points, tri_hl) \<Rightarrow>
                 (let scores3 = (if points > 0 then add_score scores2 playerIdx points else scores2);
                      hl3 = (if points > 0 then hl2 @ tri_hl else hl2)
                  in room\<lparr> board := b2, stock := stock1, lastPlayed := lastPlayed1,
                           scores := scores3, highlights := hl3 \<rparr>))))"

text \<open>The first seat of \<^verbatim>\<open>for (let i = 0; i < room.players.length; i++)\<close> whose stock
  \<^verbatim>\<open>room.stock[i] || { R: 0, P: 0, S: 0 }\<close> sums to 0.\<close>

definition exhausted_seat :: "room \<Rightarrow> nat option" where
  "exhausted_seat room =
     find (\<lambda>i. stock_is_zero (if i < length (stock room) then stock room ! i
                              else Stock (Num 0) (Num 0) (Num 0)))
          [0..<length (players room)]"

text \<open>The end of the handler, from \<^verbatim>\<open>// win by points\<close> on. A tie message reads
  \<^verbatim>\<open>winners[0].score\<close>, which throws when there is no winner; \<^verbatim>\<open>gameOver\<close> is set by
  then.\<close>

definition finish_placement :: "room \<Rightarrow> nat \<Rightarrow> nat \<Rightarrow> outcome" where
  "finish_placement room playerIdx now =
     (if num_ge (score_or_0 (scores room) playerIdx) (pointsToWin (settings room)) then
        emit (room\<lparr> gameOver := True,
                    message := WinsByReaching (display_name (players room) playerIdx)
                                 (pointsToWin (settings room)),
                    updatedAt := now \<rparr>)
      else case exhausted_seat room of
        Some i \<Rightarrow>
          (case evaluateWinners (scores room) of
             [] \<Rightarrow> Threw (room\<lparr> gameOver := True \<rparr>)
           | [w] \<Rightarrow>
               emit (room\<lparr> gameOver := True,
                           message := UsedAllWins (display_name (players room) i) w,
                           updatedAt := now \<rparr>)
           | w # ws \<Rightarrow>
               emit (room\<lparr> gameOver := True,
                           message := UsedAllTie (display_name (players room) i) (w # ws)
                                        (snd (snd w)),
                           updatedAt := now \<rparr>))
      | None \<Rightarrow>
          if boardFull (board room) then
            (case evaluateWinners (scores room) of
               [] \<Rightarrow> Threw (room\<lparr> gameOver := True \<rparr>)
             | [w] \<Rightarrow>
                 emit (room\<lparr> gameOver := True, message := BoardFullWins w, updatedAt := now \<rparr>)
             | w # ws \<Rightarrow>
                 emit (room\<lparr> gameOver := True, message := BoardFullTie (w # ws) (snd (snd w)),
                             updatedAt := now \<rparr>))
          else
            emit (room\<lparr> turn := (turn room + 1) mod length (players room), updatedAt := now \<rparr>))"

text \<open>\<^verbatim>\<open>socket.on('placePiece', ({ roomId, r, c, sym }) => ...)\<close> on the room found for
  \<^verbatim>\<open>roomId\<close>; \<open>sock\<close> is \<^verbatim>\<open>socket.id\<close>.\<close>

definition placePiece :: "room \<Rightarrow> string \<Rightarrow> int \<Rightarrow> int \<Rightarrow> string \<Rightarrow> nat \<Rightarrow> outcome" where
  "placePiece room sock r c symStr now =
     (if gameOver room then Rejected
      else case findIndex (\<lambda>p. socketId p = sock) (players room) of
        None \<Rightarrow> Rejected
      | Some playerIdx \<Rightarrow>
          if playerIdx \<noteq> turn room then Rejected
          else case parse_sym symStr of
            None \<Rightarrow> Rejected
          | Some s \<Rightarrow>
              if \<not> inBounds r c then Rejected
              else if cell_at (board room) r c \<noteq> Empty then Rejected
              else if out_of_stock (stock room) playerIdx s then Rejected
              else finish_placement (place_and_score room playerIdx r c s) playerIdx now)"

subsection \<open>The \<^verbatim>\<open>moveBlocker\<close> handler\<close>

definition moveBlocker :: "room \<Rightarrow> string \<Rightarrow> pos \<Rightarrow> pos \<Rightarrow> nat \<Rightarrow> outcome" where
  "moveBlocker room sock fromPos toPos now =
     (if gameOver room then Rejected
      else case findIndex (\<lambda>p. socketId p = sock) (players room) of
        None \<Rightarrow> Rejected
      | Some playerIdx \<Rightarrow>
          if playerIdx \<noteq> turn room then Rejected
          else case (fromPos, toPos) of ((fr, fc), (tr, tc)) \<Rightarrow>
            if \<not> inBounds fr fc \<or> \<not> inBounds tr tc then Rejected
            else if cell_at (board room) fr fc \<noteq> Blocker then Rejected
            else if cell_at (board room) tr tc \<noteq> Empty then Rejected
            else (let ddr = \<bar>fr - tr\<bar>; ddc = \<bar>fc - tc\<bar>
                  in if (ddr = 0 \<and> ddc = 0) \<or> ddr > 1 \<or> ddc > 1 then Rejected
                     else emit (room\<lparr> board := set_cell (set_cell (board room) tr tc Blocker)
                                                  fr fc Empty,
                                      highlights := [],
                                      turn := (turn room + 1) mod length (players room),
                                      updatedAt := now \<rparr>)))"

subsection \<open>The \<^verbatim>\<open>newGame\<close> handler\<close>

text \<open>\<^verbatim>\<open>randomEmptyCell\<close>: the empty cells in row-major order; \<open>x\<close> stands for the random
  draw, \<^verbatim>\<open>Math.floor(Math.random() * empties.length)\<close> being \<open>x mod length empties\<close>.\<close>

definition randomEmptyCell :: "board \<Rightarrow> nat \<Rightarrow> pos option" where
  "randomEmptyCell b x =
     (let empties = concat (map (\<lambda>r. map (\<lambda>c. (r, c))
                       (filter (\<lambda>c. cell_at b r c = Empty) [0..BOARD_SIZE - 1])) [0..BOARD_SIZE - 1])
      in if empties = [] then None else Some (empties ! (x mod length empties)))"

text \<open>\<^verbatim>\<open>placeRandomBlockers(board, count)\<close>: \<open>n\<close> is \<open>count - placed\<close>, \<open>rnd k\<close> the \<open>k\<close>-th
  random draw.\<close>

fun placeRandomBlockers :: "board \<Rightarrow> nat \<Rightarrow> (nat \<Rightarrow> nat) \<Rightarrow> nat \<Rightarrow> board" where
  "placeRandomBlockers b 0 rnd k = b"
| "placeRandomBlockers b (Suc n) rnd k =
     (case randomEmptyCell b (rnd k) of
        None \<Rightarrow> b
      | Some (r, c) \<Rightarrow> placeRandomBlockers (set_cell b r c Blocker) n rnd (Suc k))"

definition newGame ::
  "room \<Rightarrow> string \<Rightarrow> jsval \<Rightarrow> jsval \<Rightarrow> jsval \<Rightarrow> (nat \<Rightarrow> nat) \<Rightarrow> nat \<Rightarrow> outcome" where
  "newGame room sock tilesArg blockersArg pointsArg rnd now =
     (if \<not> (list_ex (\<lambda>p. socketId p = sock) (players room) \<or>
             list_ex (\<lambda>p. socketId p = sock) (spectators room)) then Rejected
      else
        (let tiles = clamp 1 99 (parseInt_or tilesArg 10);
             blk = clamp 0 (BOARD_SIZE * BOARD_SIZE) (parseInt_or blockersArg 8);
             pts = clamp 1 999 (parseInt_or pointsArg 7);
             b0 = createEmptyBoard;
             b1 = (case blk of
                     Num n \<Rightarrow> if n > 0 then placeRandomBlockers b0 (nat n) rnd 0 else b0
                   | NaN \<Rightarrow> b0)
         in emit (room\<lparr> settings := \<lparr> tilesPerSymbol = tiles, blockers = blk, pointsToWin = pts \<rparr>,
                         turn := 0,
                         lastPlayed := [],
                         scores := replicate (length (players room)) (Some (Num 0)),
                         stock := replicate (length (players room)) (Stock tiles tiles tiles),
                         board := b1,
                         gameOver := False,
                         message := NewGameStarted,
                         started := True,
                         highlights := [],
                         updatedAt := now \<rparr>)))"

subsection \<open>The \<^verbatim>\<open>leaveRoom\<close> and \<^verbatim>\<open>disconnect\<close> handlers\<close>

text \<open>Both work on the registry \<^verbatim>\<open>rooms\<close>; they return the registry and the state emitted
  to the room, if any.\<close>

definition leaveRoom :: "rooms \<Rightarrow> string \<Rightarrow> string \<Rightarrow> nat \<Rightarrow> rooms \<times> room option" where
  "leaveRoom rs rid sock now =
     (case rs rid of
        None \<Rightarrow> (rs, None)
      | Some room \<Rightarrow>
          (let room1 =
                 (case findIndex (\<lambda>p. socketId p = sock) (spectators room) of
                    Some sIdx \<Rightarrow> room\<lparr> spectators := splice1 sIdx (spectators room) \<rparr>
                  | None \<Rightarrow> room);
               room2 =
                 (case findIndex (\<lambda>p. socketId p = sock) (players room1) of
                    Some pIdx \<Rightarrow>
                      (let ps = splice1 pIdx (players room1)
                       in room1\<lparr> players := ps,
                                 turn := (if turn room1 \<ge> length ps then 0 else turn room1),
                                 scores := splice1 pIdx (scores room1),
                                 stock := splice1 pIdx (stock room1) \<rparr>)
                  | None \<Rightarrow> room1)
           in if length (players room2) = 0 then (rs(rid := None), None)
              else (case emitRoomStateOnce
                           (room2\<lparr> started := False, gameOver := False, message := YouLeft,
                                   updatedAt := now \<rparr>) of
                      (sent, room3) \<Rightarrow> (rs(rid \<mapsto> room3), Some sent))))"

text \<open>\<open>joined\<close> is the handler's \<^verbatim>\<open>joinedRoomId\<close>.\<close>

definition disconnect :: "rooms \<Rightarrow> string option \<Rightarrow> string \<Rightarrow> nat \<Rightarrow> rooms \<times> room option" where
  "disconnect rs joined sock now =
     (case joined of
        None \<Rightarrow> (rs, None)
      | Some rid \<Rightarrow>
          (case rs rid of
             None \<Rightarrow> (rs, None)
           | Some room \<Rightarrow>
               (let room1 =
                      (case findIndex (\<lambda>p. socketId p = sock) (players room) of
                         Some pIdx \<Rightarrow>
                           room\<lparr> players := splice1 pIdx (players room),
                                 scores := splice1 pIdx (scores room),
                                 stock := splice1 pIdx (stock room) \<rparr>
                       | None \<Rightarrow> room);
                    room2 =
                      (case findIndex (\<lambda>p. socketId p = sock) (spectators room1) of
                         Some sIdx \<Rightarrow> room1\<lparr> spectators := splice1 sIdx (spectators room1) \<rparr>
                       | None \<Rightarrow> room1)
                in if length (players room2) = 0 then (rs(rid := None), None)
                   else (case emitRoomStateOnce (room2\<lparr> updatedAt := now \<rparr>) of
                           (sent, room3) \<Rightarrow> (rs(rid \<mapsto> room3), Some sent)))))"

subsection \<open>Concrete games\<close>

text \<open>A game of two players on an empty board: Ann and Bob join a fresh room and Ann starts
  a new game with no blockers.\<close>

definition two_player_game :: room where
  "two_player_game =
     (let r0 = ensureRoom_new ''ROOM'' 0;
          r1 = room_after r0 (joinRoom r0 ''a'' ''Ann'' False 0);
          r2 = room_after r1 (joinRoom r1 ''b'' ''Bob'' False 0)
      in room_after r2 (newGame r2 ''a'' Undefined (JVal (units ''0'')) Undefined (\<lambda>k. 0) 0))"

text \<open>A board for the elimination rule: player 0 has Rock at (0,0) and (0,1) and player 1
  has Scissors at (0,2).\<close>

definition pair_board :: board where
  "pair_board =
     set_cell (set_cell (set_cell createEmptyBoard 0 0 (Piece 0 R)) 0 2 (Piece 1 S)) 0 1 (Piece 0 R)"



text \<open>The room with Ann and Bob seated before any game, and the game Ann starts in it with
  one blocker; the random draw 0 puts the blocker on (0,0).\<close>

definition two_player_lobby :: room where
  "two_player_lobby =
     (let r0 = ensureRoom_new ''ROOM'' 0;
          r1 = room_after r0 (joinRoom r0 ''a'' ''Ann'' False 0)
      in room_after r1 (joinRoom r1 ''b'' ''Bob'' False 0))"

definition blocker_game :: room where
  "blocker_game =
     room_after two_player_lobby
       (newGame two_player_lobby ''a'' Undefined (JVal (units ''1'')) Undefined (\<lambda>k. 0) 0)"

text \<open>Ann alone in a game with one tile per symbol and no blockers, after she has placed her
  Rock at (0,0) and her Paper at (0,1): her Scissors is her last tile.\<close>

definition last_tile_game :: room where
  "last_tile_game =
     (let r0 = ensureRoom_new ''ROOM'' 0;
          r1 = room_after r0 (joinRoom r0 ''a'' ''Ann'' False 0);
          g0 = room_after r1 (newGame r1 ''a'' (JVal (units ''1'')) (JVal (units ''0'')) Undefined (\<lambda>k. 0) 0);
          g1 = room_after g0 (placePiece g0 ''a'' 0 0 ''R'' 1)
      in room_after g1 (placePiece g1 ''a'' 0 1 ''P'' 2))"

text \<open>Playing a list of placements, each \<open>(socket, r, c, symbol)\<close>, one after the other, and
  a socket leaving the room \<^verbatim>\<open>ROOM\<close> of a registry that holds this room only.\<close>

definition place :: "room \<Rightarrow> string \<times> int \<times> int \<times> string \<Rightarrow> room" where
  "place g m = (case m of (sock, r, c, sy) \<Rightarrow> room_after g (placePiece g sock r c sy 0))"

definition leave :: "room \<Rightarrow> string \<Rightarrow> room" where
  "leave g sock =
     (case fst (leaveRoom (Map.empty(''ROOM'' \<mapsto> g)) ''ROOM'' sock 0) ''ROOM'' of
        Some g' \<Rightarrow> g'
      | None \<Rightarrow> g)"


text \<open>Three games for elimination, each with Ann to move. In the first Ann holds Rocks at
  \<open>(0, 1)\<close> and \<open>(0, 3)\<close> and Bob a Scissors at \<open>(0, 4)\<close>; in the second Bob holds a Scissors at
  \<open>(0, 1)\<close> and Ann no piece of that row; in the third Ann holds a Rock at \<open>(0, 0)\<close> and Bob a
  Scissors at \<open>(0, 2)\<close>.\<close>

definition run_of_three_game :: room where
  "run_of_three_game = foldl place two_player_game
     [(''a'', 0, 1, ''R''), (''b'', 7, 7, ''P''), (''a'', 0, 3, ''R''), (''b'', 0, 4, ''S'')]"

definition lone_piece_game :: room where
  "lone_piece_game = foldl place two_player_game [(''a'', 7, 7, ''P''), (''b'', 0, 1, ''S'')]"

definition run_of_two_game :: room where
  "run_of_two_game = foldl place two_player_game [(''a'', 0, 0, ''R''), (''b'', 0, 2, ''S'')]"

text \<open>Three players with 2 tiles per symbol. Cat, on seat 2, places Rocks at \<open>(0, 0)\<close> and
  \<open>(0, 2)\<close>; Ann and Bob leave; Cat, now alone on seat 0, places a Scissors between the Rocks
  and two more tiles, which leaves Cat one Paper.\<close>

definition three_player_game :: room where
  "three_player_game =
     (let r0 = ensureRoom_new ''ROOM'' 0;
          r1 = room_after r0 (joinRoom r0 ''a'' ''Ann'' False 0);
          r2 = room_after r1 (joinRoom r1 ''b'' ''Bob'' False 0);
          r3 = room_after r2 (joinRoom r2 ''c'' ''Cat'' False 0)
      in room_after r3
           (newGame r3 ''a'' (JVal (units ''2'')) (JVal (units ''0'')) Undefined (\<lambda>k. 0) 0))"

definition stale_owner_game :: room where
  "stale_owner_game =
     (let g1 = foldl place three_player_game
                 [(''a'', 7, 0, ''P''), (''b'', 7, 2, ''P''), (''c'', 0, 0, ''R''),
                  (''a'', 7, 4, ''P''), (''b'', 7, 6, ''P''), (''c'', 0, 2, ''R'')];
          g2 = leave (leave g1 ''a'') ''b''
      in foldl place g2
           [(''c'', 0, 1, ''S''), (''c'', 2, 0, ''S''), (''c'', 4, 0, ''P'')])"

text \<open>The same with two players: Bob, on seat 1, places the Rocks, Ann leaves, and Bob, now
  alone on seat 0, places the Scissors and two more tiles.\<close>

definition phantom_winner_game :: room where
  "phantom_winner_game =
     (let g0 = room_after two_player_lobby
                 (newGame two_player_lobby ''a'' (JVal (units ''2'')) (JVal (units ''0'')) Undefined
                    (\<lambda>k. 0) 0);
          g1 = foldl place g0
                 [(''a'', 7, 0, ''P''), (''b'', 0, 0, ''R''), (''a'', 7, 4, ''P''), (''b'', 0, 2, ''R'')];
          g2 = leave g1 ''a''
      in foldl place g2
           [(''b'', 0, 1, ''S''), (''b'', 2, 0, ''S''), (''b'', 4, 0, ''P'')])"

text \<open>Ann and Bob in a game started with \<^verbatim>\<open>'abc'\<close> tiles per symbol and no blockers.\<close>

definition nan_stock_game :: room where
  "nan_stock_game =
     room_after two_player_lobby
       (newGame two_player_lobby ''a'' (JVal (units ''abc'')) (JVal (units ''0'')) Undefined
          (\<lambda>k. 0) 0)"

subsection \<open>Predicates for stating the rules\<close>

text \<open>A cell that elimination by a piece of player \<open>p\<close> with symbol \<open>s\<close> may remove: it holds
  a piece (not a blocker) of another owner whose symbol is weak to \<open>s\<close>.\<close>

definition defeated_enemy :: "board \<Rightarrow> nat \<Rightarrow> sym \<Rightarrow> int \<Rightarrow> int \<Rightarrow> bool" where
  "defeated_enemy b p s i j =
     (case cell_at b i j of Piece q t \<Rightarrow> q \<noteq> p \<and> WEAK_TO t = s | _ \<Rightarrow> False)"

text \<open>The two cells elimination tries in one direction, by the neighbours of \<open>(r, c)\<close>: with
  an own twin one step back, the cell two steps back and the cell one step forward; else
  with an own twin one step forward, the cell one step back and the cell two steps forward;
  else none.\<close>

definition elimination_targets :: "board \<Rightarrow> nat \<Rightarrow> sym \<Rightarrow> int \<Rightarrow> int \<Rightarrow> delta \<Rightarrow> pos list" where
  "elimination_targets b p s r c d =
     (if inBounds (r - dr d) (c - dc d) \<and> sameOwnerSym b (r - dr d) (c - dc d) p s
        then [(r - 2 * dr d, c - 2 * dc d), (r + dr d, c + dc d)]
      else if inBounds (r + dr d) (c + dc d) \<and> sameOwnerSym b (r + dr d) (c + dc d) p s
        then [(r - dr d, c - dc d), (r + 2 * dr d, c + 2 * dc d)]
      else [])"

text \<open>One call of \<open>tryEliminate\<close> on the running \<open>(board, removed, highlights)\<close>.\<close>

definition try_step ::
  "nat \<Rightarrow> sym \<Rightarrow> nat \<Rightarrow> board \<times> nat \<times> highlight list \<Rightarrow> pos \<Rightarrow> board \<times> nat \<times> highlight list" where
  "try_step p s byPlayerIdx st t =
     (case st of (b, removed, hl) \<Rightarrow>
        (case tryEliminate b p s byPlayerIdx (fst t) (snd t) of
           (b1, n1, h1) \<Rightarrow> (b1, removed + n1, hl @ h1)))"

text \<open>The state of the elimination loop after the cells \<open>ts\<close> have been tried, against the
  board \<open>b0\<close> it started from.\<close>

definition elim_inv ::
  "board \<Rightarrow> nat \<Rightarrow> sym \<Rightarrow> pos list \<Rightarrow> board \<times> nat \<times> highlight list \<Rightarrow> bool" where
  "elim_inv b0 p s ts st =
     (case st of (b, removed, hl) \<Rightarrow>
        wf_board b \<and>
        (\<forall>i j. inBounds i j \<longrightarrow>
           cell_at b i j =
             (if (i, j) \<in> set ts \<and> defeated_enemy b0 p s i j then Empty else cell_at b0 i j)) \<and>
        removed = card {t \<in> set ts. inBounds (fst t) (snd t) \<and> defeated_enemy b0 p s (fst t) (snd t)} \<and>
        removed \<le> length ts \<and> length hl = removed)"





text \<open>A stock that counts pieces: every seat has one, and its three entries are integers
  that are not negative.\<close>

fun nonneg :: "num \<Rightarrow> bool" where
  "nonneg (Num n) = (0 \<le> n)"
| "nonneg NaN = False"

fun stock_counts :: "stock \<Rightarrow> bool" where
  "stock_counts (Stock x y z) = (nonneg x \<and> nonneg y \<and> nonneg z)"

definition wf_stock :: "room \<Rightarrow> bool" where
  "wf_stock room \<longleftrightarrow>
     length (stock room) = length (players room) \<and> list_all stock_counts (stock room)"

text \<open>The winners by the scores \<open>ns\<close> of the seats: the seats whose score is the maximum, in
  seat order, each with its label and that score; and the winners a message names.\<close>

definition top_scorers :: "int list \<Rightarrow> nat list" where
  "top_scorers ns = filter (\<lambda>k. ns ! k = Max (set ns)) [0..<length ns]"

definition winners_of :: "int list \<Rightarrow> winner list" where
  "winners_of ns = map (\<lambda>k. (k, seat_label k, Num (Max (set ns)))) (top_scorers ns)"

fun message_winners :: "message \<Rightarrow> winner list" where
  "message_winners (UsedAllWins nm w) = [w]"
| "message_winners (UsedAllTie nm ws sc) = ws"
| "message_winners (BoardFullWins w) = [w]"
| "message_winners (BoardFullTie ws sc) = ws"
| "message_winners m = []"

text \<open>The turn cursor is in range: below the number of players, and 0 in a room without
  players.\<close>

definition turn_ok :: "room \<Rightarrow> bool" where
  "turn_ok room \<longleftrightarrow> turn room < max 1 (length (players room))"

section \<open>Boards\<close>

lemma inBounds_iff: "inBounds r c \<longleftrightarrow> 0 \<le> r \<and> r < 8 \<and> 0 \<le> c \<and> c < 8"
  by (auto simp: inBounds_def BOARD_SIZE_def)

lemma wf_board_rows:
  assumes "wf_board b" and "i < 8"
  shows "length b = 8" and "length (b ! i) = 8"
  using assms by (simp_all add: wf_board_def BOARD_SIZE_def list_all_length)

lemma cell_at_set_cell:
  assumes "wf_board b" and "inBounds r c" and "inBounds r' c'"
  shows "cell_at (set_cell b r c v) r' c' = (if r = r' \<and> c = c' then v else cell_at b r' c')"
proof -
  have r: "nat r < 8" "nat c < 8" "nat r' < 8" "nat c' < 8"
    using assms(2,3) unfolding inBounds_iff by arith+
  have eq: "nat r = nat r' \<longleftrightarrow> r = r'" "nat c = nat c' \<longleftrightarrow> c = c'"
    using assms(2,3) unfolding inBounds_iff by arith+
  show ?thesis
    using r eq wf_board_rows[OF assms(1)]
    by (auto simp: cell_at_def set_cell_def nth_list_update)
qed

lemma wf_board_set_cell: "wf_board b \<Longrightarrow> wf_board (set_cell b r c v)"
proof (cases "nat r < length b")
  case True
  assume "wf_board b"
  with True show ?thesis
    by (auto simp: wf_board_def set_cell_def list_all_length nth_list_update)
next
  case False
  then have "set_cell b r c v = b"
    by (simp add: set_cell_def list_update_beyond)
  moreover assume "wf_board b"
  ultimately show ?thesis by simp
qed

lemma wf_board_createEmptyBoard: "wf_board createEmptyBoard"
  by (simp add: wf_board_def createEmptyBoard_def BOARD_SIZE_def list_all_length)

lemma cell_at_createEmptyBoard: "inBounds r c \<Longrightarrow> cell_at createEmptyBoard r c = Empty"
  unfolding inBounds_iff cell_at_def createEmptyBoard_def BOARD_SIZE_def
  by (subst nth_replicate; (subst nth_replicate)?; simp; arith)


section \<open>The line through the placed cell\<close>

lemma first_pair_back:
  "new \<notin> set xs \<Longrightarrow> a \<noteq> new \<Longrightarrow> first_pair (xs @ a # new # ys) new = Some (a, new)"
proof (induction xs)
  case Nil
  show ?case by simp
next
  case (Cons x xs)
  then show ?case by (cases xs) auto
qed

lemma backward_step:
  "inBounds br bc \<and> sameOwnerSym b br bc p s \<Longrightarrow>
     backward b p s d br bc = backward b p s d (br - dr d) (bc - dc d) @ [(br, bc)]"
  by (subst backward.simps) simp

lemma backward_stop:
  "\<not> (inBounds br bc \<and> sameOwnerSym b br bc p s) \<Longrightarrow> backward b p s d br bc = []"
  by (subst backward.simps) simp

lemma forward_step:
  "inBounds fr fc \<and> sameOwnerSym b fr fc p s \<Longrightarrow>
     forward b p s d fr fc = (fr, fc) # forward b p s d (fr + dr d) (fc + dc d)"
  by (subst forward.simps) simp

lemma forward_stop:
  "\<not> (inBounds fr fc \<and> sameOwnerSym b fr fc p s) \<Longrightarrow> forward b p s d fr fc = []"
  by (subst forward.simps) simp

lemma backward_cells:
  "(x, y) \<in> set (backward b p s d br bc) \<Longrightarrow> (if d = D_0_1 then y \<le> bc else x \<le> br)"
proof (induction b p s d br bc rule: backward.induct)
  case (1 b p s d br bc)
  show ?case
  proof (cases "inBounds br bc \<and> sameOwnerSym b br bc p s")
    case True
    with "1.prems" have "(x, y) \<in> set (backward b p s d (br - dr d) (bc - dc d)) \<or> (x, y) = (br, bc)"
      by (auto simp: backward_step)
    then show ?thesis
    proof
      assume "(x, y) \<in> set (backward b p s d (br - dr d) (bc - dc d))"
      from "1.IH"[OF True this] show ?thesis by (cases d) auto
    next
      assume "(x, y) = (br, bc)"
      then show ?thesis by simp
    qed
  next
    case False
    with "1.prems" show ?thesis by (simp add: backward_stop)
  qed
qed

lemma placed_not_in_backward: "(r, c) \<notin> set (backward b p s d (r - dr d) (c - dc d))"
proof
  assume "(r, c) \<in> set (backward b p s d (r - dr d) (c - dc d))"
  from backward_cells[OF this] show False by (cases d) auto
qed

lemma first_pair_line:
  "first_pair (line_through b p s d r c) (r, c) =
     (if inBounds (r - dr d) (c - dc d) \<and> sameOwnerSym b (r - dr d) (c - dc d) p s
        then Some ((r - dr d, c - dc d), (r, c))
      else if inBounds (r + dr d) (c + dc d) \<and> sameOwnerSym b (r + dr d) (c + dc d) p s
        then Some ((r, c), (r + dr d, c + dc d))
      else None)"
proof (cases "inBounds (r - dr d) (c - dc d) \<and> sameOwnerSym b (r - dr d) (c - dc d) p s")
  case True
  have ne: "(r - dr d, c - dc d) \<noteq> (r, c)" by (cases d) auto
  have nin: "(r, c) \<notin> set (backward b p s d (r - dr d - dr d) (c - dc d - dc d))"
  proof
    assume "(r, c) \<in> set (backward b p s d (r - dr d - dr d) (c - dc d - dc d))"
    from backward_cells[OF this] show False by (cases d) auto
  qed
  show ?thesis
    using True first_pair_back[OF nin ne]
    by (simp add: line_through_def backward_step[OF True])
next
  case False
  note nb = this
  have bs: "backward b p s d (r - dr d) (c - dc d) = []"
    by (rule backward_stop[OF nb])
  show ?thesis
  proof (cases "inBounds (r + dr d) (c + dc d) \<and> sameOwnerSym b (r + dr d) (c + dc d) p s")
    case True
    show ?thesis
      by (subst if_not_P[OF nb], subst if_P[OF True])
         (simp add: line_through_def bs forward_step[OF True])
  next
    case False
    show ?thesis
      by (subst if_not_P[OF nb], subst if_not_P[OF False])
         (simp add: line_through_def bs forward_stop[OF False])
  qed
qed

section \<open>Elimination\<close>

lemma tryEliminate_eq:
  "tryEliminate b p s byIdx rr cc =
     (if inBounds rr cc \<and> defeated_enemy b p s rr cc
      then (set_cell b rr cc Empty, 1, [([(rr, cc)], byIdx)]) else (b, 0, []))"
  by (auto simp: tryEliminate_def defeated_enemy_def split: cell.splits)

lemma eliminate_dir_targets:
  "eliminate_dir p s byIdx r c st d =
     foldl (try_step p s byIdx) st (elimination_targets (fst st) p s r c d)"
proof -
  obtain b n hl where st: "st = (b, n, hl)" by (cases st)
  have a: "r - dr d - dr d = r - 2 * dr d" "c - dc d - dc d = c - 2 * dc d"
    "r + dr d + dr d = r + 2 * dr d" "c + dc d + dc d = c + 2 * dc d" by simp_all
  show ?thesis
    unfolding st eliminate_dir_def elimination_targets_def first_pair_line
    by (simp add: try_step_def a split: prod.splits)
qed

lemma sameOwnerSym_not_defeated:
  "sameOwnerSym b i j p s \<Longrightarrow> \<not> defeated_enemy b p s i j"
  by (auto simp: sameOwnerSym_def defeated_enemy_def split: cell.splits)

lemma elim_inv_sameOwnerSym:
  assumes "elim_inv b0 p s ts (b, n, hl)" and "inBounds i j"
  shows "sameOwnerSym b i j p s = sameOwnerSym b0 i j p s"
proof -
  from assms have c: "cell_at b i j =
      (if (i, j) \<in> set ts \<and> defeated_enemy b0 p s i j then Empty else cell_at b0 i j)"
    by (simp add: elim_inv_def)
  show ?thesis
  proof (cases "(i, j) \<in> set ts \<and> defeated_enemy b0 p s i j")
    case True
    then have "\<not> sameOwnerSym b0 i j p s" using sameOwnerSym_not_defeated by blast
    moreover from True c have "\<not> sameOwnerSym b i j p s" by (simp add: sameOwnerSym_def)
    ultimately show ?thesis by simp
  next
    case False
    with c show ?thesis by (simp add: sameOwnerSym_def)
  qed
qed

lemma elim_inv_targets:
  assumes "elim_inv b0 p s ts (b, n, hl)"
  shows "elimination_targets b p s r c d = elimination_targets b0 p s r c d"
proof -
  have e: "\<And>i j. (inBounds i j \<and> sameOwnerSym b i j p s) = (inBounds i j \<and> sameOwnerSym b0 i j p s)"
    using elim_inv_sameOwnerSym[OF assms] by blast
  show ?thesis by (simp only: elimination_targets_def e)
qed

lemma elim_invI:
  assumes "wf_board b"
    and "\<And>i j. inBounds i j \<Longrightarrow> cell_at b i j =
        (if (i, j) \<in> set ts \<and> defeated_enemy b0 p s i j then Empty else cell_at b0 i j)"
    and "n = card {t \<in> set ts. inBounds (fst t) (snd t) \<and> defeated_enemy b0 p s (fst t) (snd t)}"
    and "n \<le> length ts" and "length hl = n"
  shows "elim_inv b0 p s ts (b, n, hl)"
  unfolding elim_inv_def using assms by simp

lemma elim_invD:
  assumes "elim_inv b0 p s ts (b, n, hl)"
  shows "wf_board b"
    and "\<And>i j. inBounds i j \<Longrightarrow> cell_at b i j =
        (if (i, j) \<in> set ts \<and> defeated_enemy b0 p s i j then Empty else cell_at b0 i j)"
    and "n = card {t \<in> set ts. inBounds (fst t) (snd t) \<and> defeated_enemy b0 p s (fst t) (snd t)}"
    and "n \<le> length ts" and "length hl = n"
  using assms unfolding elim_inv_def by simp_all

lemma try_step_inv:
  assumes inv: "elim_inv b0 p s ts st"
  shows "elim_inv b0 p s (ts @ [t]) (try_step p s byIdx st t)"
proof -
  obtain b n hl where st: "st = (b, n, hl)" by (cases st)
  obtain rr cc where t: "t = (rr, cc)" by (cases t)
  define S where "S = (\<lambda>xs. {x \<in> set xs. inBounds (fst x) (snd x) \<and> defeated_enemy b0 p s (fst x) (snd x)})"
  note d = elim_invD[OF inv[unfolded st]]
  note wf = d(1) and cells = d(2) and le = d(4) and hl = d(5)
  have n: "n = card (S ts)" using d(3) by (simp only: S_def)
  have fin: "finite (S ts)" by (simp add: S_def)
  have S_app: "S (ts @ [t]) =
      (if inBounds rr cc \<and> defeated_enemy b0 p s rr cc then insert t (S ts) else S ts)"
    by (auto simp: S_def t)
  show ?thesis
  proof (cases "inBounds rr cc \<and> defeated_enemy b p s rr cc")
    case True
    then have inb: "inBounds rr cc" and db: "defeated_enemy b p s rr cc" by simp_all
    from db have ne: "cell_at b rr cc \<noteq> Empty" by (auto simp: defeated_enemy_def)
    have notyet: "\<not> ((rr, cc) \<in> set ts \<and> defeated_enemy b0 p s rr cc)"
      using cells[OF inb] ne by (auto split: if_splits)
    have same: "cell_at b rr cc = cell_at b0 rr cc"
      using cells[OF inb] notyet by auto
    from db same have d0: "defeated_enemy b0 p s rr cc" by (simp add: defeated_enemy_def)
    with notyet have nin: "(rr, cc) \<notin> set ts" by simp
    then have "t \<notin> S ts" by (simp add: S_def t)
    moreover have "S (ts @ [t]) = insert t (S ts)" using S_app inb d0 by simp
    ultimately have card: "card (S (ts @ [t])) = n + 1" using fin n by simp
    have step: "try_step p s byIdx st t = (set_cell b rr cc Empty, n + 1, hl @ [([(rr, cc)], byIdx)])"
      using True by (simp add: try_step_def st t tryEliminate_eq)
    show ?thesis
      unfolding step
    proof (rule elim_invI)
      show "wf_board (set_cell b rr cc Empty)" by (rule wf_board_set_cell[OF wf])
    next
      fix i j assume ij: "inBounds i j"
      show "cell_at (set_cell b rr cc Empty) i j =
        (if (i, j) \<in> set (ts @ [t]) \<and> defeated_enemy b0 p s i j then Empty else cell_at b0 i j)"
      proof (cases "rr = i \<and> cc = j")
        case True
        then show ?thesis using d0 cell_at_set_cell[OF wf inb ij, of Empty] by (simp add: t)
      next
        case False
        then have "cell_at (set_cell b rr cc Empty) i j = cell_at b i j"
          using cell_at_set_cell[OF wf inb ij, of Empty] by auto
        moreover have "((i, j) \<in> set (ts @ [t])) = ((i, j) \<in> set ts)"
          using False by (auto simp: t)
        ultimately show ?thesis using cells[OF ij] by simp
      qed
    next
      show "n + 1 = card {x \<in> set (ts @ [t]). inBounds (fst x) (snd x) \<and> defeated_enemy b0 p s (fst x) (snd x)}"
        using card by (simp only: S_def)
    next
      show "n + 1 \<le> length (ts @ [t])" using le by simp
    next
      show "length (hl @ [([(rr, cc)], byIdx)]) = n + 1" using hl by simp
    qed
  next
    case False
    then have step: "try_step p s byIdx st t = (b, n, hl)"
      by (simp add: try_step_def st t tryEliminate_eq)
    have same_set: "S (ts @ [t]) = S ts"
    proof (cases "inBounds rr cc \<and> defeated_enemy b0 p s rr cc")
      case True
      then have inb: "inBounds rr cc" and d0: "defeated_enemy b0 p s rr cc" by simp_all
      from False inb have nd: "\<not> defeated_enemy b p s rr cc" by simp
      have "(rr, cc) \<in> set ts"
      proof (rule ccontr)
        assume "(rr, cc) \<notin> set ts"
        then have "cell_at b rr cc = cell_at b0 rr cc" using cells[OF inb] by simp
        with d0 nd show False by (simp add: defeated_enemy_def)
      qed
      then have "t \<in> S ts" using True by (simp add: S_def t)
      then show ?thesis using S_app by auto
    next
      case False
      show ?thesis unfolding S_app by (rule if_not_P[OF False])
    qed
    show ?thesis
      unfolding step
    proof (rule elim_invI)
      show "wf_board b" by (rule wf)
    next
      fix i j assume ij: "inBounds i j"
      have "(i, j) \<in> S (ts @ [t]) \<longleftrightarrow> (i, j) \<in> S ts" by (simp only: same_set)
      then have "((i, j) \<in> set (ts @ [t]) \<and> defeated_enemy b0 p s i j) =
            ((i, j) \<in> set ts \<and> defeated_enemy b0 p s i j)"
        using ij by (simp add: S_def)
      then show "cell_at b i j =
        (if (i, j) \<in> set (ts @ [t]) \<and> defeated_enemy b0 p s i j then Empty else cell_at b0 i j)"
        using cells[OF ij] by (simp only:)
    next
      show "n = card {x \<in> set (ts @ [t]). inBounds (fst x) (snd x) \<and> defeated_enemy b0 p s (fst x) (snd x)}"
        using n same_set by (simp only: S_def)
    next
      show "n \<le> length (ts @ [t])" using le by simp
    next
      show "length hl = n" by (rule hl)
    qed
  qed
qed

lemma foldl_try_step_inv:
  "elim_inv b0 p s ts st \<Longrightarrow> elim_inv b0 p s (ts @ us) (foldl (try_step p s byIdx) st us)"
proof (induction us arbitrary: ts st)
  case Nil
  then show ?case by simp
next
  case (Cons u us)
  from Cons.IH[OF try_step_inv[OF Cons.prems, of u byIdx]] show ?case by simp
qed

lemma eliminate_dir_inv:
  assumes "elim_inv b0 p s ts st"
  shows "elim_inv b0 p s (ts @ elimination_targets b0 p s r c d) (eliminate_dir p s byIdx r c st d)"
proof -
  obtain b n hl where st: "st = (b, n, hl)" by (cases st)
  have "elimination_targets (fst st) p s r c d = elimination_targets b0 p s r c d"
    using elim_inv_targets[OF assms[unfolded st]] by (simp add: st)
  then show ?thesis
    using foldl_try_step_inv[OF assms] by (simp add: eliminate_dir_targets)
qed

lemma elim_inv_init: "wf_board b0 \<Longrightarrow> elim_inv b0 p s [] (b0, 0, [])"
  by (simp add: elim_inv_def)

lemma resolve_inv:
  assumes "wf_board b0" and "cell_at b0 r c = Piece p s"
  shows "elim_inv b0 p s (concat (map (elimination_targets b0 p s r c) deltas))
           (resolveEliminationsFrom b0 r c byIdx)"
proof -
  have i0: "elim_inv b0 p s [] (b0, 0, [])" by (rule elim_inv_init[OF assms(1)])
  note i1 = eliminate_dir_inv[OF i0, of r c D_0_1 byIdx]
  note i2 = eliminate_dir_inv[OF i1, of r c D_1_0 byIdx]
  note i3 = eliminate_dir_inv[OF i2, of r c D_1_1 byIdx]
  note i4 = eliminate_dir_inv[OF i3, of r c D_1_m1 byIdx]
  from i4 show ?thesis
    by (simp add: resolveEliminationsFrom_def assms(2) deltas_def)
qed

lemma length_elimination_targets: "length (elimination_targets b p s r c d) \<le> 2"
  by (simp add: elimination_targets_def)


section \<open>The run through the placed cell\<close>


















section \<open>The placement handler\<close>


lemma place_and_score_board:
  "board (place_and_score room i r c s) =
     fst (resolveEliminationsFrom (set_cell (board room) r c (Piece i s)) r c i)"
  by (simp add: place_and_score_def Let_def split: prod.splits)

lemma findIndex_Some:
  "findIndex pred xs = Some i \<Longrightarrow> i < length xs \<and> pred (xs ! i) \<and> (\<forall>j<i. \<not> pred (xs ! j))"
proof (induction xs arbitrary: i)
  case Nil
  then show ?case by simp
next
  case (Cons x xs)
  show ?case
  proof (cases "pred x")
    case True
    with Cons.prems show ?thesis by simp
  next
    case False
    with Cons.prems obtain i' where i': "findIndex pred xs = Some i'" "i = Suc i'" by auto
    from Cons.IH[OF i'(1)] False show ?thesis
      by (auto simp: i'(2) less_Suc_eq_0_disj)
  qed
qed

lemma findIndex_None: "findIndex pred xs = None \<longleftrightarrow> (\<forall>x\<in>set xs. \<not> pred x)"
  by (induction xs) auto

lemma emit_eq: "emit room = Emitted room (room\<lparr>highlights := []\<rparr>)"
  by (simp add: emit_def emitRoomStateOnce_def)

lemma resolve_keeps_own:
  assumes "wf_board b" and "cell_at b r c = Piece p s" and "inBounds i j"
    and "cell_at b i j = Piece p t"
  shows "cell_at (fst (resolveEliminationsFrom b r c byIdx)) i j = Piece p t"
proof -
  obtain b' n hl where res: "resolveEliminationsFrom b r c byIdx = (b', n, hl)"
    by (cases "resolveEliminationsFrom b r c byIdx")
  from resolve_inv[OF assms(1,2), of byIdx] have "elim_inv b p s
      (concat (map (elimination_targets b p s r c) deltas)) (b', n, hl)" by (simp only: res)
  note d = elim_invD(2)[OF this assms(3)]
  have "\<not> defeated_enemy b p s i j" using assms(4) by (simp add: defeated_enemy_def)
  with d assms(4) show ?thesis by (simp add: res)
qed

lemma parse_sym_None_iff: "parse_sym str = None \<longleftrightarrow> str \<notin> set [''R'', ''P'', ''S'']"
  by (simp add: parse_sym_def)

lemma finish_placement_not_Rejected: "finish_placement room1 i now \<noteq> Rejected"
  by (auto simp: finish_placement_def emit_eq split: option.splits list.splits)

lemma finish_placement_keeps:
  "stock (room_after room0 (finish_placement room1 i now)) = stock room1"
  "board (room_after room0 (finish_placement room1 i now)) = board room1"
  "scores (room_after room0 (finish_placement room1 i now)) = scores room1"
  "players (room_after room0 (finish_placement room1 i now)) = players room1"
  "settings (room_after room0 (finish_placement room1 i now)) = settings room1"
  by (auto simp: finish_placement_def emit_eq split: option.splits list.splits)

lemma place_and_score_keeps:
  "stock (place_and_score room i r c s) = (stock room)[i := stock_dec (stock room ! i) s]"
  "players (place_and_score room i r c s) = players room"
  "settings (place_and_score room i r c s) = settings room"
  "turn (place_and_score room i r c s) = turn room"
  "gameOver (place_and_score room i r c s) = gameOver room"
  "message (place_and_score room i r c s) = message room"
  "started (place_and_score room i r c s) = started room"
  by (simp_all add: place_and_score_def Let_def split: prod.splits)

lemma placePiece_accepted:
  assumes "\<not> gameOver room"
    and "findIndex (\<lambda>p. socketId p = sock) (players room) = Some i" and "i = turn room"
    and "parse_sym symStr = Some s" and "inBounds r c"
    and "cell_at (board room) r c = Empty" and "\<not> out_of_stock (stock room) i s"
  shows "placePiece room sock r c symStr now =
           finish_placement (place_and_score room i r c s) i now"
  using assms by (simp add: placePiece_def)

lemma placePiece_Rejected_iff:
  "placePiece room sock r c symStr now = Rejected \<longleftrightarrow>
     (gameOver room
      \<or> findIndex (\<lambda>p. socketId p = sock) (players room) \<noteq> Some (turn room)
      \<or> parse_sym symStr = None
      \<or> \<not> inBounds r c
      \<or> cell_at (board room) r c \<noteq> Empty
      \<or> (\<exists>s. parse_sym symStr = Some s \<and> out_of_stock (stock room) (turn room) s))"
  by (auto simp: placePiece_def finish_placement_not_Rejected split: option.splits)

lemma stock_get_dec:
  "stock_get (stock_dec st s) s' = (if s' = s then num_add (stock_get st s) (- 1) else stock_get st s')"
  by (cases st; cases s; cases s') simp_all

lemma stock_counts_get: "stock_counts st \<Longrightarrow> \<exists>n\<ge>0. stock_get st s = Num n"
proof -
  assume a: "stock_counts st"
  obtain x y z where st: "st = Stock x y z" by (cases st)
  have "nonneg v \<Longrightarrow> \<exists>n\<ge>0. v = Num n" for v by (cases v) simp_all
  with a show ?thesis by (cases s) (simp_all add: st)
qed

lemma wf_stock_out_of_stock:
  assumes "wf_stock room" and "i < length (players room)"
  shows "out_of_stock (stock room) i s \<longleftrightarrow> stock_get (stock room ! i) s = Num 0"
proof -
  from assms have i: "i < length (stock room)" and "stock_counts (stock room ! i)"
    by (simp_all add: wf_stock_def list_all_length)
  from stock_counts_get[OF this(2), of s] obtain n where "0 \<le> n" "stock_get (stock room ! i) s = Num n"
    by blast
  with i show ?thesis by (auto simp: out_of_stock_def)
qed


section \<open>Misplacement windows\<close>

















section \<open>Winners\<close>

lemma foldl_max2_numeric:
  "foldl max2 (Num a) (map (\<lambda>n. Some (Num n)) ns) = Num (fold max ns a)"
  by (induction ns arbitrary: a) (simp_all add: max.commute)

lemma math_max_numeric:
  "ns \<noteq> [] \<Longrightarrow> math_max (map (\<lambda>n. Some (Num n)) ns) = Num (Max (set ns))"
proof (cases ns)
  case Nil
  assume "ns \<noteq> []"
  with Nil show ?thesis by simp
next
  case (Cons a as)
  have "Max (set (a # as)) = fold max as a" by (rule Max.set_eq_fold)
  then show ?thesis by (simp only: Cons list.simps math_max.simps foldl_max2_numeric)
qed

lemma evaluateWinners_numeric:
  assumes "ns \<noteq> []"
  shows "evaluateWinners (map (\<lambda>n. Some (Num n)) ns) = winners_of ns"
proof -
  have "filter (\<lambda>i. map (\<lambda>n. Some (Num n)) ns ! i = Some (Num (Max (set ns)))) [0..<length ns]
      = filter (\<lambda>k. ns ! k = Max (set ns)) [0..<length ns]"
    by (rule filter_cong) simp_all
  then show ?thesis
    by (simp add: evaluateWinners_def math_max_numeric[OF assms] winners_of_def top_scorers_def)
qed

lemma top_scorers_set: "k \<in> set (top_scorers ns) \<longleftrightarrow> k < length ns \<and> ns ! k = Max (set ns)"
  by (auto simp: top_scorers_def)

lemma top_scorers_nonempty:
  assumes "ns \<noteq> []"
  shows "top_scorers ns \<noteq> []"
proof -
  from assms have "Max (set ns) \<in> set ns" by (intro Max_in) simp_all
  then obtain k where "k < length ns" "ns ! k = Max (set ns)" by (auto simp: in_set_conv_nth)
  then have "k \<in> set (top_scorers ns)" by (simp add: top_scorers_set)
  then show ?thesis by auto
qed

lemma winners_of_facts:
  assumes "ns \<noteq> []"
  shows "winners_of ns \<noteq> []" and "map fst (winners_of ns) = top_scorers ns"
    and "snd (snd (hd (winners_of ns))) = Num (Max (set ns))"
    and "length (winners_of ns) = length (top_scorers ns)"
  using top_scorers_nonempty[OF assms]
  by (simp_all add: winners_of_def comp_def hd_map)

section \<open>The end of a placement\<close>

lemma exhausted_seat_None:
  assumes "length (stock room1) = length (players room1)"
  shows "exhausted_seat room1 = None \<longleftrightarrow>
         \<not> (\<exists>j<length (players room1). stock_is_zero (stock room1 ! j))"
  using assms by (auto simp: exhausted_seat_def find_None_iff)

lemma exhausted_seat_Some:
  assumes "length (stock room1) = length (players room1)"
  shows "exhausted_seat room1 = Some j \<longleftrightarrow>
         j < length (players room1) \<and> stock_is_zero (stock room1 ! j)
         \<and> (\<forall>k<j. \<not> stock_is_zero (stock room1 ! k))"
  using assms by (auto simp: exhausted_seat_def find_Some_iff)

lemma finish_won:
  assumes "num_ge (score_or_0 (scores room1) i) (pointsToWin (settings room1))"
  shows "finish_placement room1 i now =
     emit (room1\<lparr> gameOver := True,
                  message := WinsByReaching (display_name (players room1) i)
                               (pointsToWin (settings room1)),
                  updatedAt := now \<rparr>)"
  using assms by (simp add: finish_placement_def)

lemma finish_exhausted:
  assumes "\<not> num_ge (score_or_0 (scores room1) i) (pointsToWin (settings room1))"
    and "exhausted_seat room1 = Some j"
    and "evaluateWinners (scores room1) = ws" and "ws \<noteq> []"
  shows "finish_placement room1 i now =
     emit (room1\<lparr> gameOver := True,
                  message := (if length ws = 1
                              then UsedAllWins (display_name (players room1) j) (hd ws)
                              else UsedAllTie (display_name (players room1) j) ws
                                     (snd (snd (hd ws)))),
                  updatedAt := now \<rparr>)"
proof (cases ws)
  case Nil
  with assms(4) show ?thesis by simp
next
  case (Cons w ws')
  then show ?thesis
    using assms(1-3) by (cases ws') (simp_all add: finish_placement_def)
qed

lemma finish_boardFull:
  assumes "\<not> num_ge (score_or_0 (scores room1) i) (pointsToWin (settings room1))"
    and "exhausted_seat room1 = None" and "boardFull (board room1)"
    and "evaluateWinners (scores room1) = ws" and "ws \<noteq> []"
  shows "finish_placement room1 i now =
     emit (room1\<lparr> gameOver := True,
                  message := (if length ws = 1 then BoardFullWins (hd ws)
                              else BoardFullTie ws (snd (snd (hd ws)))),
                  updatedAt := now \<rparr>)"
proof (cases ws)
  case Nil
  with assms(5) show ?thesis by simp
next
  case (Cons w ws')
  then show ?thesis
    using assms(1-4) by (cases ws') (simp_all add: finish_placement_def)
qed

lemma finish_next_turn:
  assumes "\<not> num_ge (score_or_0 (scores room1) i) (pointsToWin (settings room1))"
    and "exhausted_seat room1 = None" and "\<not> boardFull (board room1)"
  shows "finish_placement room1 i now =
     emit (room1\<lparr> turn := (turn room1 + 1) mod length (players room1), updatedAt := now \<rparr>)"
  using assms by (simp add: finish_placement_def)

lemma finish_terminal:
  assumes "num_ge (score_or_0 (scores room1) i) (pointsToWin (settings room1))
           \<or> exhausted_seat room1 \<noteq> None \<or> boardFull (board room1)"
  shows "gameOver (room_after room0 (finish_placement room1 i now))
       \<and> turn (room_after room0 (finish_placement room1 i now)) = turn room1"
  using assms
  by (auto simp: finish_placement_def emit_eq split: option.splits list.splits)

section \<open>The blocker move\<close>

lemma one_step_iff:
  "\<not> ((\<bar>fr - tr\<bar> = 0 \<and> \<bar>fc - tc\<bar> = 0) \<or> \<bar>fr - tr\<bar> > 1 \<or> \<bar>fc - tc\<bar> > 1)
     \<longleftrightarrow> max \<bar>fr - tr\<bar> \<bar>fc - tc\<bar> = (1::int)"
  by arith

lemma moveBlocker_accepted:
  assumes "\<not> gameOver room"
    and "findIndex (\<lambda>p. socketId p = sock) (players room) = Some (turn room)"
    and "inBounds fr fc" and "inBounds tr tc"
    and "cell_at (board room) fr fc = Blocker" and "cell_at (board room) tr tc = Empty"
    and "max \<bar>fr - tr\<bar> \<bar>fc - tc\<bar> = 1"
  shows "moveBlocker room sock (fr, fc) (tr, tc) now =
     emit (room\<lparr> board := set_cell (set_cell (board room) tr tc Blocker) fr fc Empty,
                 highlights := [],
                 turn := (turn room + 1) mod length (players room),
                 updatedAt := now \<rparr>)"
proof -
  from assms(7) have "\<not> ((\<bar>fr - tr\<bar> = 0 \<and> \<bar>fc - tc\<bar> = 0) \<or> \<bar>fr - tr\<bar> > 1 \<or> \<bar>fc - tc\<bar> > 1)"
    by (simp only: one_step_iff)
  then show ?thesis
    using assms(1-6) by (auto simp: moveBlocker_def Let_def)
qed

lemma moveBlocker_rejected:
  assumes "\<not> (\<not> gameOver room
      \<and> findIndex (\<lambda>p. socketId p = sock) (players room) = Some (turn room)
      \<and> inBounds fr fc \<and> inBounds tr tc
      \<and> cell_at (board room) fr fc = Blocker \<and> cell_at (board room) tr tc = Empty
      \<and> max \<bar>fr - tr\<bar> \<bar>fc - tc\<bar> = 1)"
  shows "moveBlocker room sock (fr, fc) (tr, tc) now = Rejected"
proof -
  have "max \<bar>fr - tr\<bar> \<bar>fc - tc\<bar> \<noteq> 1 \<Longrightarrow>
      ((\<bar>fr - tr\<bar> = 0 \<and> \<bar>fc - tc\<bar> = 0) \<or> \<bar>fr - tr\<bar> > 1 \<or> \<bar>fc - tc\<bar> > 1)"
    using one_step_iff[of fr tr fc tc] by blast
  with assms show ?thesis
    by (auto simp: moveBlocker_def Let_def split: option.splits)
qed


section \<open>The turn cursor stays in range\<close>

lemma finish_placement_turn:
  "players (room_after room0 (finish_placement room1 i now)) = players room1 \<and>
   (turn (room_after room0 (finish_placement room1 i now)) = turn room1 \<or>
    turn (room_after room0 (finish_placement room1 i now))
      = (turn room1 + 1) mod length (players room1))"
  by (auto simp: finish_placement_def emit_eq split: option.splits list.splits)

lemma turn_ok_placePiece:
  assumes "turn_ok room"
  shows "turn_ok (room_after room (placePiece room sock r c symStr now))"
proof (cases "placePiece room sock r c symStr now = Rejected")
  case True
  with assms show ?thesis by simp
next
  case False
  then have c: "\<not> gameOver room"
    "findIndex (\<lambda>p. socketId p = sock) (players room) = Some (turn room)"
    "parse_sym symStr \<noteq> None" "inBounds r c" "cell_at (board room) r c = Empty"
    "\<And>s. parse_sym symStr = Some s \<Longrightarrow> \<not> out_of_stock (stock room) (turn room) s"
    unfolding placePiece_Rejected_iff by auto
  from c(3) obtain s where s: "parse_sym symStr = Some s" by auto
  have out: "placePiece room sock r c symStr now =
      finish_placement (place_and_score room (turn room) r c s) (turn room) now"
    by (rule placePiece_accepted[OF c(1,2) refl s c(4,5) c(6)[OF s]])
  from findIndex_Some[OF c(2)] have pos: "0 < length (players room)" by auto
  then have "(turn room + 1) mod length (players room) < length (players room)"
    by (rule mod_less_divisor)
  then have m: "(turn room + 1) mod length (players room) < max 1 (length (players room))"
    by (simp only: less_max_iff_disj) simp
  from finish_placement_turn[of room "place_and_score room (turn room) r c s" "turn room" now]
  show ?thesis
    using assms m unfolding out turn_ok_def place_and_score_keeps by auto
qed

lemma turn_ok_moveBlocker:
  assumes "turn_ok room"
  shows "turn_ok (room_after room (moveBlocker room sock fromPos toPos now))"
proof (cases "moveBlocker room sock fromPos toPos now = Rejected")
  case True
  with assms show ?thesis by simp
next
  case False
  obtain fr fc tr tc where p: "fromPos = (fr, fc)" "toPos = (tr, tc)"
    by (cases fromPos; cases toPos)
  from False have ok: "\<not> gameOver room
      \<and> findIndex (\<lambda>p. socketId p = sock) (players room) = Some (turn room)
      \<and> inBounds fr fc \<and> inBounds tr tc
      \<and> cell_at (board room) fr fc = Blocker \<and> cell_at (board room) tr tc = Empty
      \<and> max \<bar>fr - tr\<bar> \<bar>fc - tc\<bar> = 1"
    using moveBlocker_rejected[of room sock fr fc tr tc now] by (auto simp: p)
  then have pos: "0 < length (players room)"
    using findIndex_Some[of "\<lambda>p. socketId p = sock" "players room" "turn room"] by auto
  then have "(turn room + 1) mod length (players room) < length (players room)"
    by (rule mod_less_divisor)
  then have m: "(turn room + 1) mod length (players room) < max 1 (length (players room))"
    by (simp only: less_max_iff_disj) simp
  from ok have "moveBlocker room sock fromPos toPos now =
     emit (room\<lparr> board := set_cell (set_cell (board room) tr tc Blocker) fr fc Empty,
                 highlights := [],
                 turn := (turn room + 1) mod length (players room),
                 updatedAt := now \<rparr>)"
    unfolding p by (intro moveBlocker_accepted) simp_all
  then show ?thesis using m by (simp add: emit_eq turn_ok_def)
qed

lemma turn_ok_joinRoom:
  assumes "turn_ok room"
  shows "turn_ok (room_after room (joinRoom room sock nm asSpectator now))"
  using assms by (auto simp: joinRoom_def Let_def emit_eq turn_ok_def)

lemma turn_ok_newGame:
  assumes "turn_ok room"
  shows "turn_ok (room_after room (newGame room sock tilesArg blockersArg pointsArg rnd now))"
  using assms by (auto simp: newGame_def Let_def emit_eq turn_ok_def)

lemma turn_ok_leaveRoom:
  assumes "rs rid = Some room" and "turn_ok room"
    and "fst (leaveRoom rs rid sock now) rid = Some room'"
  shows "turn_ok room'"
  using assms
  by (auto simp: leaveRoom_def Let_def emitRoomStateOnce_def turn_ok_def
        split: option.splits if_splits)


section \<open>Scores\<close>












lemma set_elimination_targets_all:
  "set (concat (map (elimination_targets b p s r c) deltas)) =
     {t. \<exists>d\<in>set deltas. t \<in> set (elimination_targets b p s r c d)}"
  by auto

lemma length_all_targets: "length (concat (map (elimination_targets b p s r c) deltas)) \<le> 8"
proof -
  have "length (concat (map (elimination_targets b p s r c) deltas)) =
      length (elimination_targets b p s r c D_0_1) + length (elimination_targets b p s r c D_1_0)
      + length (elimination_targets b p s r c D_1_1) + length (elimination_targets b p s r c D_1_m1)"
    by (simp add: deltas_def)
  also have "\<dots> \<le> 2 + 2 + 2 + 2"
    by (intro add_mono length_elimination_targets)
  finally show ?thesis by simp
qed

section \<open>The cells that elimination tries\<close>

text \<open>
  What the loop of the latest revision does. For a piece of player \<open>p\<close> with symbol \<open>s\<close> at
  \<open>(r, c)\<close>, each direction tries the two cells next to the first pair of neighbouring line
  cells that contains \<open>(r, c)\<close> (\<open>elimination_targets\<close>). A tried cell is set to Empty exactly
  when it is in bounds and holds a non-Blocker piece of another owner whose symbol is
  defeated by \<open>s\<close>; every other cell keeps its content, so no piece of the placing player is
  ever removed. The count returned is the number of removed pieces, between 0 and 8, one
  highlight each.
\<close>

lemma resolveEliminationsFrom_first_pair:
  assumes "wf_board b" and "inBounds r c" and "cell_at b r c = Piece p s"
    and "resolveEliminationsFrom b r c byIdx = (b', removed, hl)"
  shows "removed \<le> 8
    \<and> wf_board b'
    \<and> (\<forall>i j. inBounds i j \<longrightarrow>
          cell_at b' i j =
            (if (\<exists>d\<in>set deltas. (i, j) \<in> set (elimination_targets b p s r c d))
                \<and> defeated_enemy b p s i j
             then Empty else cell_at b i j))
    \<and> removed = card {(i, j). inBounds i j \<and> cell_at b' i j \<noteq> cell_at b i j}
    \<and> (\<forall>i j t. inBounds i j \<and> cell_at b i j = Piece p t \<longrightarrow> cell_at b' i j = Piece p t)
    \<and> length hl = removed"
proof -
  define T where "T = concat (map (elimination_targets b p s r c) deltas)"
  have inv: "elim_inv b p s T (b', removed, hl)"
    using resolve_inv[OF assms(1,3), of byIdx] by (simp only: T_def assms(4))
  note d = elim_invD[OF inv]
  have inT: "\<And>i j. ((i, j) \<in> set T) = (\<exists>d\<in>set deltas. (i, j) \<in> set (elimination_targets b p s r c d))"
    by (auto simp: T_def)
  have cells: "\<And>i j. inBounds i j \<Longrightarrow> cell_at b' i j =
      (if (\<exists>d\<in>set deltas. (i, j) \<in> set (elimination_targets b p s r c d)) \<and> defeated_enemy b p s i j
       then Empty else cell_at b i j)"
    using d(2) by (simp only: inT)
  have le: "removed \<le> 8"
    using d(4) length_all_targets[of b p s r c] unfolding T_def by arith
  have changed_iff: "\<And>i j. inBounds i j \<Longrightarrow>
      (cell_at b' i j \<noteq> cell_at b i j) = ((i, j) \<in> set T \<and> defeated_enemy b p s i j)"
  proof -
    fix i j assume ij: "inBounds i j"
    show "(cell_at b' i j \<noteq> cell_at b i j) = ((i, j) \<in> set T \<and> defeated_enemy b p s i j)"
    proof (cases "(i, j) \<in> set T \<and> defeated_enemy b p s i j")
      case True
      then have "cell_at b' i j = Empty" using d(2)[OF ij] by simp
      moreover from True have "cell_at b i j \<noteq> Empty" by (auto simp: defeated_enemy_def)
      ultimately show ?thesis using True by simp
    next
      case False
      then have "cell_at b' i j = cell_at b i j" using d(2)[OF ij] by auto
      with False show ?thesis by simp
    qed
  qed
  have changed: "{(i, j). inBounds i j \<and> cell_at b' i j \<noteq> cell_at b i j} =
      {t \<in> set T. inBounds (fst t) (snd t) \<and> defeated_enemy b p s (fst t) (snd t)}"
  proof (rule set_eqI)
    fix x :: pos
    obtain i j where x: "x = (i, j)" by (cases x)
    show "x \<in> {(i, j). inBounds i j \<and> cell_at b' i j \<noteq> cell_at b i j} \<longleftrightarrow>
          x \<in> {t \<in> set T. inBounds (fst t) (snd t) \<and> defeated_enemy b p s (fst t) (snd t)}"
    proof (cases "inBounds i j")
      case True
      show ?thesis using changed_iff[OF True] True by (simp add: x)
    next
      case False
      then show ?thesis by (simp add: x)
    qed
  qed
  have count: "removed = card {(i, j). inBounds i j \<and> cell_at b' i j \<noteq> cell_at b i j}"
    using d(3) by (simp only: changed)
  have own: "\<And>i j t. inBounds i j \<Longrightarrow> cell_at b i j = Piece p t \<Longrightarrow> cell_at b' i j = Piece p t"
  proof -
    fix i j t assume ij: "inBounds i j" and own: "cell_at b i j = Piece p t"
    then have "\<not> defeated_enemy b p s i j" by (simp add: defeated_enemy_def)
    with d(2)[OF ij] own show "cell_at b' i j = Piece p t" by simp
  qed
  show ?thesis
  proof (intro conjI allI impI)
    show "removed \<le> 8" by (rule le)
    show "wf_board b'" by (rule d(1))
    show "removed = card {(i, j). inBounds i j \<and> cell_at b' i j \<noteq> cell_at b i j}" by (rule count)
    show "length hl = removed" by (rule d(5))
  next
    fix i j assume "inBounds i j"
    then show "cell_at b' i j =
            (if (\<exists>d\<in>set deltas. (i, j) \<in> set (elimination_targets b p s r c d))
                \<and> defeated_enemy b p s i j
             then Empty else cell_at b i j)" by (rule cells)
  next
    fix i j t assume "inBounds i j \<and> cell_at b i j = Piece p t"
    then show "cell_at b' i j = Piece p t" using own by blast
  qed
qed

text \<open>The lemma at work: player 0 completes the pair (0,0)-(0,1) of Rocks next to the
  Scissors of player 1 at (0,2), which is removed and counted.\<close>

lemma resolveEliminationsFrom_first_pair_example:
  "wf_board pair_board \<and> inBounds 0 1 \<and> cell_at pair_board 0 1 = Piece 0 R
    \<and> resolveEliminationsFrom pair_board 0 1 0 = (set_cell pair_board 0 2 Empty, 1, [([(0, 2)], 0)])
    \<and> (1::nat) \<le> 8
    \<and> wf_board (set_cell pair_board 0 2 Empty)
    \<and> 1 = card {(i, j). inBounds i j \<and> cell_at (set_cell pair_board 0 2 Empty) i j \<noteq> cell_at pair_board i j}
    \<and> length [([(0::int, 2::int)], 0::nat)] = 1"
proof -
  have h1: "wf_board pair_board" by code_simp
  have h2: "inBounds 0 1" by code_simp
  have h3: "cell_at pair_board 0 1 = Piece 0 R" by code_simp
  have h4: "resolveEliminationsFrom pair_board 0 1 0 =
      (set_cell pair_board 0 2 Empty, 1, [([(0, 2)], 0)])" by code_simp
  note c = resolveEliminationsFrom_first_pair[OF h1 h2 h3 h4]
  from c have c1: "(1::nat) \<le> 8" by (rule conjunct1)
  from c have c2: "wf_board (set_cell pair_board 0 2 Empty)" by blast
  from c have c3: "1 = card {(i, j). inBounds i j \<and>
      cell_at (set_cell pair_board 0 2 Empty) i j \<noteq> cell_at pair_board i j}" by blast
  from c have c4: "length [([(0::int, 2::int)], 0::nat)] = 1" by blast
  show ?thesis using h1 h2 h3 h4 c1 c2 c3 c4 by (intro conjI)
qed

section \<open>The checks after a placement\<close>

text \<open>
  What the checks after an accepted placement do. Let \<open>room1\<close> be the room after the piece is
  placed and the three rules are scored, \<open>won\<close> say that the placing player's score has reached
  \<open>pointsToWin\<close>, and \<open>exhausted\<close> say that some seat's stock sums to 0 (every seat having a
  stock). The handler then ends in this priority.
  \<^enum> If \<open>won\<close>: the game is over with the message that the placing player wins.
  \<^enum> Otherwise, if \<open>exhausted\<close>: the game is over; where the scores are the integers \<open>ns\<close>,
    the message names the first exhausted seat and the winners are exactly the indices whose
    score is the maximum of \<open>ns\<close>, one winner or a tie of all of them.
  \<^enum> Otherwise, if the board is full: the game is over, with the winners found the same way
    where the scores are integers.
  \<^enum> Otherwise the turn advances by 1 modulo the number of players and the game goes on.
  In the first three cases \<open>gameOver\<close> is true and the turn is not advanced.
\<close>

lemma placePiece_terminal_checks:
  assumes acc: "placePiece room sock r c symStr now \<noteq> Rejected"
    and sym: "parse_sym symStr = Some s"
    and st: "length (stock room) = length (players room)"
    and r1: "room1 = place_and_score room (turn room) r c s"
    and out: "out = placePiece room sock r c symStr now"
    and won: "won \<longleftrightarrow> num_ge (score_or_0 (scores room1) (turn room)) (pointsToWin (settings room))"
    and exh: "exhausted \<longleftrightarrow> (\<exists>j<length (players room). stock_is_zero (stock room1 ! j))"
  shows
    "(won \<longrightarrow>
        out = emit (room1\<lparr> gameOver := True,
                           message := WinsByReaching (display_name (players room) (turn room))
                                        (pointsToWin (settings room)),
                           updatedAt := now \<rparr>))
   \<and> (\<not> won \<and> exhausted \<longrightarrow>
        (\<exists>j<length (players room).
            stock_is_zero (stock room1 ! j) \<and> (\<forall>k<j. \<not> stock_is_zero (stock room1 ! k)) \<and>
            (\<forall>ns. ns \<noteq> [] \<and> scores room1 = map (\<lambda>n. Some (Num n)) ns \<longrightarrow>
               out = emit (room1\<lparr> gameOver := True,
                     message := (if length (top_scorers ns) = 1
                                 then UsedAllWins (display_name (players room) j) (hd (winners_of ns))
                                 else UsedAllTie (display_name (players room) j) (winners_of ns)
                                        (Num (Max (set ns)))),
                     updatedAt := now \<rparr>))))
   \<and> (\<not> won \<and> \<not> exhausted \<and> boardFull (board room1) \<longrightarrow>
        (\<forall>ns. ns \<noteq> [] \<and> scores room1 = map (\<lambda>n. Some (Num n)) ns \<longrightarrow>
           out = emit (room1\<lparr> gameOver := True,
                 message := (if length (top_scorers ns) = 1
                             then BoardFullWins (hd (winners_of ns))
                             else BoardFullTie (winners_of ns) (Num (Max (set ns)))),
                 updatedAt := now \<rparr>)))
   \<and> (\<not> won \<and> \<not> exhausted \<and> \<not> boardFull (board room1) \<longrightarrow>
        out = emit (room1\<lparr> turn := (turn room + 1) mod length (players room),
                           updatedAt := now \<rparr>)
        \<and> \<not> gameOver (room_after room out)
        \<and> turn (room_after room out) = (turn room + 1) mod length (players room))
   \<and> (won \<or> exhausted \<or> boardFull (board room1) \<longrightarrow>
        gameOver (room_after room out) \<and> turn (room_after room out) = turn room)
   \<and> (\<forall>ns. ns \<noteq> [] \<longrightarrow>
        map fst (winners_of ns) = top_scorers ns \<and> top_scorers ns \<noteq> [] \<and>
        (\<forall>k. k \<in> set (top_scorers ns) \<longleftrightarrow> k < length ns \<and> ns ! k = Max (set ns)))"
proof -
  from acc have c: "\<not> gameOver room"
    "findIndex (\<lambda>p. socketId p = sock) (players room) = Some (turn room)"
    "inBounds r c" "cell_at (board room) r c = Empty"
    "\<not> out_of_stock (stock room) (turn room) s"
    unfolding placePiece_Rejected_iff using sym by auto
  have fin: "out = finish_placement room1 (turn room) now"
    unfolding out r1 by (rule placePiece_accepted[OF c(1,2) refl sym c(3,4,5)])
  have keep: "players room1 = players room" "settings room1 = settings room"
    "turn room1 = turn room" "gameOver room1 = gameOver room"
    by (simp_all add: r1 place_and_score_keeps)
  have len: "length (stock room1) = length (players room1)"
    by (simp add: r1 place_and_score_keeps st)
  have won': "won \<longleftrightarrow> num_ge (score_or_0 (scores room1) (turn room)) (pointsToWin (settings room1))"
    by (simp only: won keep)
  have exh_none: "exhausted_seat room1 = None \<longleftrightarrow> \<not> exhausted"
    by (simp only: exhausted_seat_None[OF len] exh keep)
  have case1: "out = emit (room1\<lparr> gameOver := True,
                           message := WinsByReaching (display_name (players room) (turn room))
                                        (pointsToWin (settings room)),
                           updatedAt := now \<rparr>)" if won
    using finish_won[of room1 "turn room" now] that by (simp only: fin won' keep)
  have case2: "\<exists>j<length (players room).
            stock_is_zero (stock room1 ! j) \<and> (\<forall>k<j. \<not> stock_is_zero (stock room1 ! k)) \<and>
            (\<forall>ns. ns \<noteq> [] \<and> scores room1 = map (\<lambda>n. Some (Num n)) ns \<longrightarrow>
               out = emit (room1\<lparr> gameOver := True,
                     message := (if length (top_scorers ns) = 1
                                 then UsedAllWins (display_name (players room) j) (hd (winners_of ns))
                                 else UsedAllTie (display_name (players room) j) (winners_of ns)
                                        (Num (Max (set ns)))),
                     updatedAt := now \<rparr>))" if nw: "\<not> won" and ex: exhausted
  proof -
    from ex exh_none obtain j where j: "exhausted_seat room1 = Some j" by (cases "exhausted_seat room1") auto
    from iffD1[OF exhausted_seat_Some[OF len] j]
    have jj: "j < length (players room)" "stock_is_zero (stock room1 ! j)"
      "\<forall>k<j. \<not> stock_is_zero (stock room1 ! k)" by (simp_all add: keep)
    have "out = emit (room1\<lparr> gameOver := True,
                     message := (if length (top_scorers ns) = 1
                                 then UsedAllWins (display_name (players room) j) (hd (winners_of ns))
                                 else UsedAllTie (display_name (players room) j) (winners_of ns)
                                        (Num (Max (set ns)))),
                     updatedAt := now \<rparr>)"
      if ns: "ns \<noteq> []" "scores room1 = map (\<lambda>n. Some (Num n)) ns" for ns
    proof -
      have ev: "evaluateWinners (scores room1) = winners_of ns"
        by (simp only: ns(2) evaluateWinners_numeric[OF ns(1)])
      note w = winners_of_facts[OF ns(1)]
      from nw have nw': "\<not> num_ge (score_or_0 (scores room1) (turn room)) (pointsToWin (settings room1))"
        using won' by blast
      show ?thesis
        using finish_exhausted[OF nw' j ev w(1), of now]
        by (simp only: fin w(3,4) keep)
    qed
    with jj show ?thesis by blast
  qed
  have case3: "\<forall>ns. ns \<noteq> [] \<and> scores room1 = map (\<lambda>n. Some (Num n)) ns \<longrightarrow>
           out = emit (room1\<lparr> gameOver := True,
                 message := (if length (top_scorers ns) = 1
                             then BoardFullWins (hd (winners_of ns))
                             else BoardFullTie (winners_of ns) (Num (Max (set ns)))),
                 updatedAt := now \<rparr>)"
    if nw: "\<not> won" and ne: "\<not> exhausted" and full: "boardFull (board room1)"
  proof (intro allI impI)
    fix ns assume "ns \<noteq> [] \<and> scores room1 = map (\<lambda>n. Some (Num n)) ns"
    then have ns: "ns \<noteq> []" "scores room1 = map (\<lambda>n. Some (Num n)) ns" by simp_all
    have ev: "evaluateWinners (scores room1) = winners_of ns"
      by (simp only: ns(2) evaluateWinners_numeric[OF ns(1)])
    note w = winners_of_facts[OF ns(1)]
    from nw have nw': "\<not> num_ge (score_or_0 (scores room1) (turn room)) (pointsToWin (settings room1))"
      using won' by blast
    from ne have none: "exhausted_seat room1 = None" using exh_none by blast
    show "out = emit (room1\<lparr> gameOver := True,
                 message := (if length (top_scorers ns) = 1
                             then BoardFullWins (hd (winners_of ns))
                             else BoardFullTie (winners_of ns) (Num (Max (set ns)))),
                 updatedAt := now \<rparr>)"
      using finish_boardFull[OF nw' none full ev w(1), of now]
      by (simp only: fin w(3,4))
  qed
  have case4: "out = emit (room1\<lparr> turn := (turn room + 1) mod length (players room),
                           updatedAt := now \<rparr>)"
    if nw: "\<not> won" and ne: "\<not> exhausted" and nf: "\<not> boardFull (board room1)"
  proof -
    from nw have nw': "\<not> num_ge (score_or_0 (scores room1) (turn room)) (pointsToWin (settings room1))"
      using won' by blast
    from ne have none: "exhausted_seat room1 = None" using exh_none by blast
    show ?thesis
      using finish_next_turn[OF nw' none nf, of now] by (simp only: fin keep)
  qed
  have case4': "\<not> gameOver (room_after room out)
        \<and> turn (room_after room out) = (turn room + 1) mod length (players room)"
    if nw: "\<not> won" and ne: "\<not> exhausted" and nf: "\<not> boardFull (board room1)"
    using case4[OF that] c(1) by (simp add: emit_eq keep)
  have terminal: "gameOver (room_after room out) \<and> turn (room_after room out) = turn room"
    if "won \<or> exhausted \<or> boardFull (board room1)"
  proof -
    from that have "num_ge (score_or_0 (scores room1) (turn room)) (pointsToWin (settings room1))
           \<or> exhausted_seat room1 \<noteq> None \<or> boardFull (board room1)"
      using won' exh_none by blast
    from finish_terminal[OF this, of room now] show ?thesis by (simp only: fin keep)
  qed
  have tops: "map fst (winners_of ns) = top_scorers ns \<and> top_scorers ns \<noteq> [] \<and>
        (\<forall>k. k \<in> set (top_scorers ns) \<longleftrightarrow> k < length ns \<and> ns ! k = Max (set ns))"
    if "ns \<noteq> []" for ns
    using winners_of_facts(2)[OF that] top_scorers_nonempty[OF that] top_scorers_set[of _ ns]
    by blast
  show ?thesis
  proof (intro conjI impI allI)
    assume won then show "out = emit (room1\<lparr> gameOver := True,
                           message := WinsByReaching (display_name (players room) (turn room))
                                        (pointsToWin (settings room)),
                           updatedAt := now \<rparr>)" by (rule case1)
  next
    assume "\<not> won \<and> exhausted"
    then show "\<exists>j<length (players room).
            stock_is_zero (stock room1 ! j) \<and> (\<forall>k<j. \<not> stock_is_zero (stock room1 ! k)) \<and>
            (\<forall>ns. ns \<noteq> [] \<and> scores room1 = map (\<lambda>n. Some (Num n)) ns \<longrightarrow>
               out = emit (room1\<lparr> gameOver := True,
                     message := (if length (top_scorers ns) = 1
                                 then UsedAllWins (display_name (players room) j) (hd (winners_of ns))
                                 else UsedAllTie (display_name (players room) j) (winners_of ns)
                                        (Num (Max (set ns)))),
                     updatedAt := now \<rparr>))" using case2 by blast
  next
    fix ns assume a: "\<not> won \<and> \<not> exhausted \<and> boardFull (board room1)"
      and b: "ns \<noteq> [] \<and> scores room1 = map (\<lambda>n. Some (Num n)) ns"
    from a have "\<forall>ns. ns \<noteq> [] \<and> scores room1 = map (\<lambda>n. Some (Num n)) ns \<longrightarrow>
           out = emit (room1\<lparr> gameOver := True,
                 message := (if length (top_scorers ns) = 1
                             then BoardFullWins (hd (winners_of ns))
                             else BoardFullTie (winners_of ns) (Num (Max (set ns)))),
                 updatedAt := now \<rparr>)" using case3 by blast
    with b show "out = emit (room1\<lparr> gameOver := True,
                 message := (if length (top_scorers ns) = 1
                             then BoardFullWins (hd (winners_of ns))
                             else BoardFullTie (winners_of ns) (Num (Max (set ns)))),
                 updatedAt := now \<rparr>)" by blast
  next
    assume a: "\<not> won \<and> \<not> exhausted \<and> \<not> boardFull (board room1)"
    then show "out = emit (room1\<lparr> turn := (turn room + 1) mod length (players room),
                           updatedAt := now \<rparr>)" using case4 by blast
    from a show "\<not> gameOver (room_after room out)" using case4' by blast
    from a show "turn (room_after room out) = (turn room + 1) mod length (players room)"
      using case4' by blast
  next
    assume a: "won \<or> exhausted \<or> boardFull (board room1)"
    from terminal[OF a] show "gameOver (room_after room out)" by (rule conjunct1)
    from terminal[OF a] show "turn (room_after room out) = turn room" by (rule conjunct2)
  next
    fix ns :: "int list" assume "ns \<noteq> []"
    from tops[OF this] show "map fst (winners_of ns) = top_scorers ns"
      and "top_scorers ns \<noteq> []" by blast+
  next
    fix ns :: "int list" and k assume "ns \<noteq> []"
    show "k \<in> set (top_scorers ns) \<longleftrightarrow> k < length ns \<and> ns ! k = Max (set ns)"
      by (rule top_scorers_set)
  qed
qed

text \<open>The lemma at work: Ann's last tile ends the game, her turn stays, and she is named the
  winner; a first placement of a game of two passes the turn to seat 1.\<close>

lemma placePiece_terminal_checks_example:
  "placePiece last_tile_game ''a'' 0 2 ''S'' 3 \<noteq> Rejected
    \<and> parse_sym ''S'' = Some S
    \<and> length (stock last_tile_game) = length (players last_tile_game)
    \<and> stock_is_zero (stock (place_and_score last_tile_game (turn last_tile_game) 0 2 S) ! 0)
    \<and> gameOver (room_after last_tile_game (placePiece last_tile_game ''a'' 0 2 ''S'' 3))
    \<and> turn (room_after last_tile_game (placePiece last_tile_game ''a'' 0 2 ''S'' 3))
         = turn last_tile_game
    \<and> message (room_after last_tile_game (placePiece last_tile_game ''a'' 0 2 ''S'' 3))
         = UsedAllWins ''Ann'' (0, ''P1'', Num 0)
    \<and> placePiece two_player_game ''a'' 0 0 ''R'' 1 \<noteq> Rejected
    \<and> turn (room_after two_player_game (placePiece two_player_game ''a'' 0 0 ''R'' 1)) = 1"
proof -
  have acc: "placePiece last_tile_game ''a'' 0 2 ''S'' 3 \<noteq> Rejected" by code_simp
  have sym: "parse_sym ''S'' = Some S" by code_simp
  have st: "length (stock last_tile_game) = length (players last_tile_game)" by code_simp
  have z: "stock_is_zero (stock (place_and_score last_tile_game (turn last_tile_game) 0 2 S) ! 0)"
    by code_simp
  have p: "0 < length (players last_tile_game)" by code_simp
  from z p have ex: "\<exists>j<length (players last_tile_game).
      stock_is_zero (stock (place_and_score last_tile_game (turn last_tile_game) 0 2 S) ! j)"
    by blast
  note c = placePiece_terminal_checks[OF acc sym st refl refl refl refl]
  from c ex have t: "gameOver (room_after last_tile_game (placePiece last_tile_game ''a'' 0 2 ''S'' 3))
      \<and> turn (room_after last_tile_game (placePiece last_tile_game ''a'' 0 2 ''S'' 3))
         = turn last_tile_game" by blast
  have m: "message (room_after last_tile_game (placePiece last_tile_game ''a'' 0 2 ''S'' 3))
         = UsedAllWins ''Ann'' (0, ''P1'', Num 0)" by code_simp
  have acc2: "placePiece two_player_game ''a'' 0 0 ''R'' 1 \<noteq> Rejected" by code_simp
  have t2: "turn (room_after two_player_game (placePiece two_player_game ''a'' 0 0 ''R'' 1)) = 1"
    by code_simp
  show ?thesis using acc sym st z t m acc2 t2 by blast
qed

section \<open>Placements on a stock that counts pieces\<close>

text \<open>
  What holds in a room whose stock counts pieces (one stock per seat, its entries integers
  that are not negative). \<open>placePiece\<close> leaves the room exactly as it was if and only if the
  game is over, or the socket is not a seated player, or it is not that player's turn, or
  the symbol is none of R, P, S, or \<open>(r, c)\<close> is out of bounds, or the target cell is not
  Empty, or the player's stock of the symbol is 0; these are the cases of the early returns.
  Otherwise the placement is carried out: the player's stock of the placed symbol goes from
  \<open>n > 0\<close> to \<open>n - 1 \<ge> 0\<close>, the other stock entries stay, and on a well-formed board the new
  piece stands on \<open>(r, c)\<close>.
\<close>

lemma placePiece_unchanged_iff:
  assumes "wf_stock room"
  shows "(room_after room (placePiece room sock r c symStr now) = room \<longleftrightarrow>
           gameOver room
           \<or> findIndex (\<lambda>p. socketId p = sock) (players room) = None
           \<or> findIndex (\<lambda>p. socketId p = sock) (players room) \<noteq> Some (turn room)
           \<or> symStr \<notin> set [''R'', ''P'', ''S'']
           \<or> \<not> inBounds r c
           \<or> cell_at (board room) r c \<noteq> Empty
           \<or> (\<exists>s. parse_sym symStr = Some s \<and> stock_get (stock room ! turn room) s = Num 0))
    \<and> (placePiece room sock r c symStr now = Rejected \<longleftrightarrow>
           room_after room (placePiece room sock r c symStr now) = room)
    \<and> (placePiece room sock r c symStr now \<noteq> Rejected \<longrightarrow>
          (\<exists>s n. parse_sym symStr = Some s
             \<and> findIndex (\<lambda>p. socketId p = sock) (players room) = Some (turn room)
             \<and> stock_get (stock room ! turn room) s = Num n \<and> 0 < n
             \<and> stock_get (stock (room_after room (placePiece room sock r c symStr now)) ! turn room) s
                  = Num (n - 1)
             \<and> 0 \<le> n - 1
             \<and> (\<forall>s'. s' \<noteq> s \<longrightarrow>
                   stock_get (stock (room_after room (placePiece room sock r c symStr now)) ! turn room) s'
                     = stock_get (stock room ! turn room) s')
             \<and> (\<forall>j. j \<noteq> turn room \<longrightarrow>
                   stock (room_after room (placePiece room sock r c symStr now)) ! j = stock room ! j)
             \<and> (wf_board (board room) \<longrightarrow>
                   cell_at (board (room_after room (placePiece room sock r c symStr now))) r c
                     = Piece (turn room) s)))"
proof -
  let ?out = "placePiece room sock r c symStr now"
  let ?fi = "findIndex (\<lambda>p. socketId p = sock) (players room)"
  let ?rej = "gameOver room \<or> ?fi = None \<or> ?fi \<noteq> Some (turn room)
           \<or> symStr \<notin> set [''R'', ''P'', ''S'']
           \<or> \<not> inBounds r c
           \<or> cell_at (board room) r c \<noteq> Empty
           \<or> (\<exists>s. parse_sym symStr = Some s \<and> stock_get (stock room ! turn room) s = Num 0)"
  have oos: "out_of_stock (stock room) (turn room) s \<longleftrightarrow> stock_get (stock room ! turn room) s = Num 0"
    if "?fi = Some (turn room)" for s
    using wf_stock_out_of_stock[OF assms, of "turn room" s] findIndex_Some[OF that] by simp
  have rej_iff: "?out = Rejected \<longleftrightarrow> ?rej"
  proof (cases "?fi = Some (turn room)")
    case True
    then show ?thesis
      unfolding placePiece_Rejected_iff parse_sym_None_iff[symmetric] by (auto simp: oos)
  next
    case False
    then show ?thesis
      unfolding placePiece_Rejected_iff by auto
  qed
  have acc: "\<exists>s n. parse_sym symStr = Some s \<and> ?fi = Some (turn room)
             \<and> stock_get (stock room ! turn room) s = Num n \<and> 0 < n
             \<and> stock_get (stock (room_after room ?out) ! turn room) s = Num (n - 1)
             \<and> 0 \<le> n - 1
             \<and> (\<forall>s'. s' \<noteq> s \<longrightarrow>
                   stock_get (stock (room_after room ?out) ! turn room) s'
                     = stock_get (stock room ! turn room) s')
             \<and> (\<forall>j. j \<noteq> turn room \<longrightarrow> stock (room_after room ?out) ! j = stock room ! j)
             \<and> (wf_board (board room) \<longrightarrow>
                   cell_at (board (room_after room ?out)) r c = Piece (turn room) s)"
    if nr: "?out \<noteq> Rejected"
  proof -
    from nr have c: "\<not> gameOver room" "?fi = Some (turn room)" "parse_sym symStr \<noteq> None"
      "inBounds r c" "cell_at (board room) r c = Empty"
      "\<And>s. parse_sym symStr = Some s \<Longrightarrow> \<not> out_of_stock (stock room) (turn room) s"
      unfolding placePiece_Rejected_iff by auto
    from c(3) obtain s where s: "parse_sym symStr = Some s" by auto
    note fi = findIndex_Some[OF c(2)]
    from assms fi have i: "turn room < length (stock room)"
      and cnt: "stock_counts (stock room ! turn room)"
      by (simp_all add: wf_stock_def list_all_length)
    from stock_counts_get[OF cnt, of s] obtain n where n: "0 \<le> n"
      "stock_get (stock room ! turn room) s = Num n" by blast
    from c(6)[OF s] oos[OF c(2), of s] n have pos: "0 < n" by (cases "n = 0") auto
    have out: "?out = finish_placement (place_and_score room (turn room) r c s) (turn room) now"
      by (rule placePiece_accepted[OF c(1,2) refl s c(4,5) c(6)[OF s]])
    have st: "stock (room_after room ?out) =
        (stock room)[turn room := stock_dec (stock room ! turn room) s]"
      by (simp only: out finish_placement_keeps place_and_score_keeps)
    have bd: "board (room_after room ?out) =
        fst (resolveEliminationsFrom (set_cell (board room) r c (Piece (turn room) s)) r c (turn room))"
      by (simp only: out finish_placement_keeps place_and_score_board)
    have piece: "cell_at (board (room_after room ?out)) r c = Piece (turn room) s"
      if wf: "wf_board (board room)"
    proof -
      have "cell_at (set_cell (board room) r c (Piece (turn room) s)) r c = Piece (turn room) s"
        using cell_at_set_cell[OF wf c(4) c(4)] by simp
      from resolve_keeps_own[OF wf_board_set_cell[OF wf] this c(4) this]
      show ?thesis by (simp only: bd)
    qed
    show ?thesis
    proof (intro exI[of _ s] exI[of _ n] conjI allI impI)
      show "parse_sym symStr = Some s" by (rule s)
      show "?fi = Some (turn room)" by (rule c(2))
      show "stock_get (stock room ! turn room) s = Num n" by (rule n(2))
      show "0 < n" by (rule pos)
      show "stock_get (stock (room_after room ?out) ! turn room) s = Num (n - 1)"
        using i n(2) by (simp add: st stock_get_dec)
      show "0 \<le> n - 1" using pos by simp
    next
      fix s' assume "s' \<noteq> s"
      then show "stock_get (stock (room_after room ?out) ! turn room) s'
          = stock_get (stock room ! turn room) s'"
        using i by (simp add: st stock_get_dec)
    next
      fix j assume "j \<noteq> turn room"
      then show "stock (room_after room ?out) ! j = stock room ! j"
        by (simp add: st)
    next
      assume "wf_board (board room)"
      then show "cell_at (board (room_after room ?out)) r c = Piece (turn room) s" by (rule piece)
    qed
  qed
  have changed: "room_after room ?out \<noteq> room" if nr: "?out \<noteq> Rejected"
  proof
    assume eq: "room_after room ?out = room"
    from acc[OF nr] obtain s n where "stock_get (stock room ! turn room) s = Num n"
      "stock_get (stock (room_after room ?out) ! turn room) s = Num (n - 1)" by blast
    then show False by (simp add: eq)
  qed
  have same_iff: "?out = Rejected \<longleftrightarrow> room_after room ?out = room"
  proof
    assume "?out = Rejected"
    then show "room_after room ?out = room" by simp
  next
    assume "room_after room ?out = room"
    with changed show "?out = Rejected" by blast
  qed
  show ?thesis
  proof (intro conjI impI)
    show "room_after room ?out = room \<longleftrightarrow> ?rej"
      using same_iff rej_iff by (simp only:)
    show "?out = Rejected \<longleftrightarrow> room_after room ?out = room" by (rule same_iff)
  next
    assume "?out \<noteq> Rejected"
    then show "\<exists>s n. parse_sym symStr = Some s \<and> ?fi = Some (turn room)
             \<and> stock_get (stock room ! turn room) s = Num n \<and> 0 < n
             \<and> stock_get (stock (room_after room ?out) ! turn room) s = Num (n - 1)
             \<and> 0 \<le> n - 1
             \<and> (\<forall>s'. s' \<noteq> s \<longrightarrow>
                   stock_get (stock (room_after room ?out) ! turn room) s'
                     = stock_get (stock room ! turn room) s')
             \<and> (\<forall>j. j \<noteq> turn room \<longrightarrow> stock (room_after room ?out) ! j = stock room ! j)
             \<and> (wf_board (board room) \<longrightarrow>
                   cell_at (board (room_after room ?out)) r c = Piece (turn room) s)"
      by (rule acc)
  qed
qed

text \<open>The lemma at work: Bob out of turn, an unknown symbol and a cell off the board are
  rejected; Ann's Rock at (0,0) is accepted and takes her stock of Rocks from 10 to 9.\<close>

lemma placePiece_unchanged_iff_example:
  "wf_stock two_player_game
    \<and> placePiece two_player_game ''b'' 0 0 ''R'' 1 = Rejected
    \<and> room_after two_player_game (placePiece two_player_game ''b'' 0 0 ''R'' 1) = two_player_game
    \<and> placePiece two_player_game ''a'' 0 0 ''X'' 1 = Rejected
    \<and> placePiece two_player_game ''a'' 0 8 ''R'' 1 = Rejected
    \<and> placePiece two_player_game ''a'' 0 0 ''R'' 1 \<noteq> Rejected
    \<and> room_after two_player_game (placePiece two_player_game ''a'' 0 0 ''R'' 1) \<noteq> two_player_game
    \<and> stock_get (stock two_player_game ! 0) R = Num 10
    \<and> stock_get (stock (room_after two_player_game (placePiece two_player_game ''a'' 0 0 ''R'' 1)) ! 0) R
         = Num 9"
proof -
  have h: "wf_stock two_player_game" by code_simp
  have r1: "placePiece two_player_game ''b'' 0 0 ''R'' 1 = Rejected" by code_simp
  have r2: "placePiece two_player_game ''a'' 0 0 ''X'' 1 = Rejected" by code_simp
  have r3: "placePiece two_player_game ''a'' 0 8 ''R'' 1 = Rejected" by code_simp
  have a1: "placePiece two_player_game ''a'' 0 0 ''R'' 1 \<noteq> Rejected" by code_simp
  note c1 = placePiece_unchanged_iff[OF h, of "''b''" 0 0 "''R''" 1]
  note c2 = placePiece_unchanged_iff[OF h, of "''a''" 0 0 "''R''" 1]
  from c1 r1 have u1: "room_after two_player_game (placePiece two_player_game ''b'' 0 0 ''R'' 1)
      = two_player_game" by blast
  from c2 a1 have u2: "room_after two_player_game (placePiece two_player_game ''a'' 0 0 ''R'' 1)
      \<noteq> two_player_game" by blast
  have s0: "stock_get (stock two_player_game ! 0) R = Num 10" by code_simp
  have s1: "stock_get (stock (room_after two_player_game
      (placePiece two_player_game ''a'' 0 0 ''R'' 1)) ! 0) R = Num 9" by code_simp
  show ?thesis using h r1 u1 r2 r3 a1 u2 s0 s1 by (intro conjI)
qed

section \<open>Scenario: a flanked piece is not eliminated\<close>

text \<open>
  Claim C5. On an empty board, player 0 places Rock at (0,0), player 1 places Scissors at
  (0,1) and player 0 places Rock at (0,2). The third placement is accepted, elimination from
  (0,2) removes nothing and credits nothing, and the Scissors piece of player 1 is still at
  (0,1) afterwards, between the two Rocks; the scores stay 0.
\<close>

theorem C5_flanked_scissors_stays:
  "let g1 = room_after two_player_game (placePiece two_player_game ''a'' 0 0 ''R'' 1);
       g2 = room_after g1 (placePiece g1 ''b'' 0 1 ''S'' 2);
       g3 = room_after g2 (placePiece g2 ''a'' 0 2 ''R'' 3)
   in board g2 = set_cell (set_cell createEmptyBoard 0 0 (Piece 0 R)) 0 1 (Piece 1 S)
    \<and> placePiece g2 ''a'' 0 2 ''R'' 3 \<noteq> Rejected
    \<and> resolveEliminationsFrom (set_cell (board g2) 0 2 (Piece 0 R)) 0 2 0
         = (set_cell (board g2) 0 2 (Piece 0 R), 0, [])
    \<and> cell_at (board g3) 0 0 = Piece 0 R
    \<and> cell_at (board g3) 0 1 = Piece 1 S
    \<and> cell_at (board g3) 0 2 = Piece 0 R
    \<and> scores g3 = [Some (Num 0), Some (Num 0)]"
  by code_simp

section \<open>Elimination at the ends of the run\<close>

text \<open>
  Claim C1 fails on the latest revision for a run of three. Ann (player 0) holds Rocks at
  (0,1) and (0,3), Bob (player 1) a Scissors at (0,4), and Ann places a Rock at (0,2). The
  placement is accepted. On the board with the new piece the run of Ann's Rocks through
  (0,2) is (0,1), (0,2), (0,3); the cell (0,0) before it is empty, and the cell (0,4) just
  beyond its far end is in bounds and holds a piece of the other player whose symbol Rock
  defeats. Elimination all the same removes nothing and credits nothing: Bob's Scissors is
  still at (0,4) after the placement, and Ann's score is 1, the point of the three in a row
  alone. The loop stops at the first pair of line cells that contains the new piece, (0,1)
  and (0,2), and tries (0,0) and Ann's own (0,3) only.

  The same holds for a run of one: with Bob's Scissors at (0,1), Ann's lone Rock placed at
  (0,2) removes nothing, since a line of one cell has no pair. A run of two does what the
  claim says: with Ann's Rock at (0,0) and Bob's Scissors at (0,2), Ann's Rock at (0,1)
  removes the Scissors and Ann's score goes from 0 to 1.
\<close>

theorem C1_run_end_not_eliminated:
  "(let g = run_of_three_game;
        b1 = set_cell (board g) 0 2 (Piece 0 R);
        g' = room_after g (placePiece g ''a'' 0 2 ''R'' 0)
    in map (\<lambda>c. cell_at (board g) 0 c) [0, 1, 2, 3, 4]
         = [Empty, Piece 0 R, Empty, Piece 0 R, Piece 1 S]
     \<and> scores g = [Some (Num 0), Some (Num 0)]
     \<and> placePiece g ''a'' 0 2 ''R'' 0 \<noteq> Rejected
     \<and> line_through b1 0 R D_0_1 0 2 = [(0, 1), (0, 2), (0, 3)]
     \<and> inBounds 0 4 \<and> defeated_enemy b1 0 R 0 4
     \<and> resolveEliminationsFrom b1 0 2 0 = (b1, 0, [])
     \<and> map (\<lambda>c. cell_at (board g') 0 c) [0, 1, 2, 3, 4]
         = [Empty, Piece 0 R, Piece 0 R, Piece 0 R, Piece 1 S]
     \<and> scores g' = [Some (Num 1), Some (Num 0)])
   \<and> (let g = lone_piece_game;
        b1 = set_cell (board g) 0 2 (Piece 0 R);
        g' = room_after g (placePiece g ''a'' 0 2 ''R'' 0)
    in placePiece g ''a'' 0 2 ''R'' 0 \<noteq> Rejected
     \<and> line_through b1 0 R D_0_1 0 2 = [(0, 2)]
     \<and> inBounds 0 1 \<and> defeated_enemy b1 0 R 0 1
     \<and> resolveEliminationsFrom b1 0 2 0 = (b1, 0, [])
     \<and> cell_at (board g') 0 1 = Piece 1 S
     \<and> scores g' = [Some (Num 0), Some (Num 0)])
   \<and> (let g = run_of_two_game;
        b1 = set_cell (board g) 0 1 (Piece 0 R);
        g' = room_after g (placePiece g ''a'' 0 1 ''R'' 0)
    in placePiece g ''a'' 0 1 ''R'' 0 \<noteq> Rejected
     \<and> line_through b1 0 R D_0_1 0 1 = [(0, 0), (0, 1)]
     \<and> inBounds 0 2 \<and> defeated_enemy b1 0 R 0 2
     \<and> resolveEliminationsFrom b1 0 1 0 = (set_cell b1 0 2 Empty, 1, [([(0, 2)], 0)])
     \<and> cell_at (board g') 0 2 = Empty
     \<and> scores g = [Some (Num 0), Some (Num 0)]
     \<and> scores g' = [Some (Num 1), Some (Num 0)])"
  by code_simp

section \<open>Terminal conditions after a placement\<close>

text \<open>
  Claim C2 fails in a room where seats were removed while their pieces stayed on the board.
  Ann, Bob and Cat play with 2 tiles per symbol; Cat, on seat 2, places Rocks at (0,0) and
  (0,2); Ann and Bob leave, which makes Cat seat 0 of a room of one player whose two Rocks
  still carry the owner index 2. Cat places a Scissors between them: the misplacement point
  goes to index 2, and the scores become 0, a hole, 1. Cat plays on, and with the last tile
  Cat's stock sums to 0. The handler sets \<open>gameOver\<close>, finds no winner (the maximum of scores
  with a hole is \<^verbatim>\<open>NaN\<close>, which no score equals) and throws on \<^verbatim>\<open>winners[0].score\<close>: no result
  message is set (the message is still that of the leave), and nothing is emitted.

  The same stale owner index gives a winner who is no player. Ann and Bob play, Bob, on
  seat 1, places Rocks at (0,0) and (0,2), and Ann leaves. Bob, now seat 0 and alone, places
  a Scissors between them, which credits index 1, and plays the last tile: the game ends
  with the message that \<^verbatim>\<open>P2\<close> wins with 1 point, in a room whose only player is Bob with 0.
\<close>

theorem C2_no_result_message_after_leave:
  "(let g = stale_owner_game;
        out = placePiece g ''c'' 6 0 ''P'' 0;
        g' = room_after g out
    in map socketId (players g) = [''c''] \<and> turn g = 0 \<and> \<not> gameOver g
     \<and> scores g = [Some (Num 0), None, Some (Num 1)]
     \<and> stock g = [Stock (Num 0) (Num 1) (Num 0)]
     \<and> out = Threw g'
     \<and> stock g' = [Stock (Num 0) (Num 0) (Num 0)]
     \<and> gameOver g'
     \<and> evaluateWinners (scores g') = []
     \<and> message g' = message g \<and> message g = YouLeft)
   \<and> (let g = phantom_winner_game;
        out = placePiece g ''b'' 6 0 ''P'' 0;
        g' = room_after g out
    in map socketId (players g) = [''b''] \<and> turn g = 0 \<and> \<not> gameOver g
     \<and> scores g = [Some (Num 0), Some (Num 1)]
     \<and> out = emit g'
     \<and> gameOver g'
     \<and> message g' = UsedAllWins ''Bob'' (1, ''P2'', Num 1))"
  by code_simp

section \<open>Misplacement\<close>



section \<open>Three in a row\<close>



section \<open>Rejected and accepted placements\<close>

text \<open>
  Claim C6 fails in a room whose game was started with a tile count that \<^verbatim>\<open>parseInt\<close> cannot
  read. Ann starts a new game with \<^verbatim>\<open>'abc'\<close> tiles per symbol and no blockers: every stock
  entry is \<^verbatim>\<open>NaN\<close>. Ann then places a Rock at (0,0). The test \<^verbatim>\<open>NaN <= 0\<close> is false, so the
  placement is accepted and the Rock stands on the board, but \<^verbatim>\<open>NaN - 1\<close> is \<^verbatim>\<open>NaN\<close>: the
  stock of the placed symbol is the same before and after, it has not decreased by 1, and
  the whole stock of the room is as it was.
\<close>

theorem C6_stock_not_decreased:
  "let g = nan_stock_game;
       out = placePiece g ''a'' 0 0 ''R'' 1;
       g' = room_after g out
   in map socketId (players g) = [''a'', ''b''] \<and> turn g = 0 \<and> \<not> gameOver g
    \<and> board g = createEmptyBoard
    \<and> stock g = [Stock NaN NaN NaN, Stock NaN NaN NaN]
    \<and> out \<noteq> Rejected
    \<and> cell_at (board g') 0 0 = Piece 0 R
    \<and> stock_get (stock g ! 0) R = NaN
    \<and> stock_get (stock g' ! 0) R = NaN
    \<and> stock g' = stock g
    \<and> turn g' = 1"
  by code_simp

section \<open>The turn cursor after a disconnect\<close>

text \<open>
  Claim C7 fails on \<open>disconnect\<close>. Ann and Bob play; Ann places a piece, so the turn is 1
  (Bob's). Bob disconnects: his seat is removed, one player remains and the turn is still 1,
  outside \<open>0 \<le> turn < playerCount\<close>; Ann's next placement is rejected as out of turn. On
  the same room \<open>leaveRoom\<close> resets the turn to 0. The other five handlers keep the turn in
  range (lemmas \<open>turn_ok_placePiece\<close>, \<open>turn_ok_moveBlocker\<close>, \<open>turn_ok_joinRoom\<close>,
  \<open>turn_ok_newGame\<close>, \<open>turn_ok_leaveRoom\<close>).
\<close>

theorem C7_disconnect_leaves_turn_out_of_range:
  "let g1 = room_after two_player_game (placePiece two_player_game ''a'' 0 0 ''R'' 1);
       rs = Map.empty(''ROOM'' \<mapsto> g1);
       after_disconnect = fst (disconnect rs (Some ''ROOM'') ''b'' 2) ''ROOM'';
       after_leave = fst (leaveRoom rs ''ROOM'' ''b'' 2) ''ROOM''
   in map socketId (players g1) = [''a'', ''b''] \<and> turn g1 = 1
    \<and> map_option (\<lambda>g. map socketId (players g)) after_disconnect = Some [''a'']
    \<and> map_option turn after_disconnect = Some 1
    \<and> map_option (\<lambda>g. turn g < length (players g)) after_disconnect = Some False
    \<and> map_option (\<lambda>g. placePiece g ''a'' 1 1 ''R'' 3) after_disconnect = Some Rejected
    \<and> map_option (\<lambda>g. map socketId (players g)) after_leave = Some [''a'']
    \<and> map_option turn after_leave = Some 0"
  by code_simp

section \<open>Moving a blocker\<close>

text \<open>
  Claim C8, as amended. \<open>moveBlocker\<close> succeeds exactly when the game is not over (whether or
  not it has been started), the socket is the seated player whose turn it is, both cells are
  in bounds, the from cell holds a Blocker, the to cell is Empty and the to cell is at
  Chebyshev distance exactly 1 from the from cell. On success the Blocker is at the to cell
  and the from cell is Empty, every other cell is as before, the highlights are cleared, the
  turn advances by 1 modulo the number of players and no score changes. On rejection the
  room is unchanged.
\<close>

theorem C8_moveBlocker_one_step:
  "(moveBlocker room sock (fr, fc) (tr, tc) now \<noteq> Rejected \<longleftrightarrow>
      \<not> gameOver room
      \<and> findIndex (\<lambda>p. socketId p = sock) (players room) = Some (turn room)
      \<and> inBounds fr fc \<and> inBounds tr tc
      \<and> cell_at (board room) fr fc = Blocker \<and> cell_at (board room) tr tc = Empty
      \<and> max \<bar>fr - tr\<bar> \<bar>fc - tc\<bar> = 1)
   \<and> (moveBlocker room sock (fr, fc) (tr, tc) now = Rejected \<longrightarrow>
        room_after room (moveBlocker room sock (fr, fc) (tr, tc) now) = room)
   \<and> (moveBlocker room sock (fr, fc) (tr, tc) now \<noteq> Rejected \<longrightarrow>
        (\<exists>sent. moveBlocker room sock (fr, fc) (tr, tc) now = Emitted sent sent
           \<and> sent = room\<lparr> board := set_cell (set_cell (board room) tr tc Blocker) fr fc Empty,
                           highlights := [],
                           turn := (turn room + 1) mod length (players room),
                           updatedAt := now \<rparr>
           \<and> highlights sent = []
           \<and> turn sent = (turn room + 1) mod length (players room)
           \<and> scores sent = scores room
           \<and> (wf_board (board room) \<longrightarrow>
                (\<forall>i j. inBounds i j \<longrightarrow>
                   cell_at (board sent) i j =
                     (if (i, j) = (fr, fc) then Empty
                      else if (i, j) = (tr, tc) then Blocker
                      else cell_at (board room) i j)))))"
proof -
  let ?ok = "\<not> gameOver room
      \<and> findIndex (\<lambda>p. socketId p = sock) (players room) = Some (turn room)
      \<and> inBounds fr fc \<and> inBounds tr tc
      \<and> cell_at (board room) fr fc = Blocker \<and> cell_at (board room) tr tc = Empty
      \<and> max \<bar>fr - tr\<bar> \<bar>fc - tc\<bar> = 1"
  let ?sent = "room\<lparr> board := set_cell (set_cell (board room) tr tc Blocker) fr fc Empty,
                     highlights := [],
                     turn := (turn room + 1) mod length (players room),
                     updatedAt := now \<rparr>"
  have acc: "moveBlocker room sock (fr, fc) (tr, tc) now = Emitted ?sent ?sent" if ?ok
    using that moveBlocker_accepted[of room sock fr fc tr tc now] by (simp add: emit_eq)
  have rej: "moveBlocker room sock (fr, fc) (tr, tc) now = Rejected" if "\<not> ?ok"
    using that by (rule moveBlocker_rejected)
  have iff: "moveBlocker room sock (fr, fc) (tr, tc) now \<noteq> Rejected \<longleftrightarrow> ?ok"
    using acc rej by (cases ?ok) simp_all
  have cells: "cell_at (board ?sent) i j =
       (if (i, j) = (fr, fc) then Empty else if (i, j) = (tr, tc) then Blocker
        else cell_at (board room) i j)"
    if ok: ?ok and wf: "wf_board (board room)" and ij: "inBounds i j" for i j
  proof -
    from ok have f: "inBounds fr fc" and t: "inBounds tr tc" by simp_all
    have "cell_at (set_cell (set_cell (board room) tr tc Blocker) fr fc Empty) i j =
        (if fr = i \<and> fc = j then Empty else cell_at (set_cell (board room) tr tc Blocker) i j)"
      by (rule cell_at_set_cell[OF wf_board_set_cell[OF wf] f ij])
    also have "cell_at (set_cell (board room) tr tc Blocker) i j =
        (if tr = i \<and> tc = j then Blocker else cell_at (board room) i j)"
      by (rule cell_at_set_cell[OF wf t ij])
    finally show ?thesis by auto
  qed
  show ?thesis
  proof (intro conjI impI)
    show "moveBlocker room sock (fr, fc) (tr, tc) now \<noteq> Rejected \<longleftrightarrow> ?ok" by (rule iff)
  next
    assume "moveBlocker room sock (fr, fc) (tr, tc) now = Rejected"
    then show "room_after room (moveBlocker room sock (fr, fc) (tr, tc) now) = room" by simp
  next
    assume "moveBlocker room sock (fr, fc) (tr, tc) now \<noteq> Rejected"
    with iff have ok: ?ok by simp
    show "\<exists>sent. moveBlocker room sock (fr, fc) (tr, tc) now = Emitted sent sent
           \<and> sent = ?sent
           \<and> highlights sent = []
           \<and> turn sent = (turn room + 1) mod length (players room)
           \<and> scores sent = scores room
           \<and> (wf_board (board room) \<longrightarrow>
                (\<forall>i j. inBounds i j \<longrightarrow>
                   cell_at (board sent) i j =
                     (if (i, j) = (fr, fc) then Empty
                      else if (i, j) = (tr, tc) then Blocker
                      else cell_at (board room) i j)))"
    proof (intro exI[of _ ?sent] conjI impI allI)
      show "moveBlocker room sock (fr, fc) (tr, tc) now = Emitted ?sent ?sent" by (rule acc[OF ok])
      show "?sent = ?sent" by (rule refl)
      show "highlights ?sent = []" by simp
      show "turn ?sent = (turn room + 1) mod length (players room)" by simp
      show "scores ?sent = scores room" by simp
    next
      fix i j assume "wf_board (board room)" "inBounds i j"
      then show "cell_at (board ?sent) i j =
           (if (i, j) = (fr, fc) then Empty else if (i, j) = (tr, tc) then Blocker
            else cell_at (board room) i j)"
        by (rule cells[OF ok])
    qed
  qed
qed

theorem C8_moveBlocker_witness:
  "\<not> gameOver blocker_game
    \<and> findIndex (\<lambda>p. socketId p = ''a'') (players blocker_game) = Some (turn blocker_game)
    \<and> inBounds 0 0 \<and> inBounds 1 1
    \<and> cell_at (board blocker_game) 0 0 = Blocker \<and> cell_at (board blocker_game) 1 1 = Empty
    \<and> max \<bar>0 - 1\<bar> \<bar>0 - 1\<bar> = (1::int)
    \<and> moveBlocker blocker_game ''a'' (0, 0) (1, 1) 1 \<noteq> Rejected
    \<and> moveBlocker blocker_game ''a'' (0, 0) (2, 0) 1 = Rejected
    \<and> moveBlocker blocker_game ''a'' (0, 0) (0, 0) 1 = Rejected
    \<and> moveBlocker blocker_game ''b'' (0, 0) (1, 1) 1 = Rejected
    \<and> cell_at (board (room_after blocker_game (moveBlocker blocker_game ''a'' (0, 0) (1, 1) 1))) 1 1
         = Blocker
    \<and> turn (room_after blocker_game (moveBlocker blocker_game ''a'' (0, 0) (1, 1) 1)) = 1"
proof -
  have h: "\<not> gameOver blocker_game
    \<and> findIndex (\<lambda>p. socketId p = ''a'') (players blocker_game) = Some (turn blocker_game)
    \<and> inBounds 0 0 \<and> inBounds 1 1
    \<and> cell_at (board blocker_game) 0 0 = Blocker \<and> cell_at (board blocker_game) 1 1 = Empty
    \<and> max \<bar>0 - 1\<bar> \<bar>0 - 1\<bar> = (1::int)"
    by code_simp
  note c = C8_moveBlocker_one_step[of blocker_game "''a''" 0 0 1 1 1]
  from c h have c1: "moveBlocker blocker_game ''a'' (0, 0) (1, 1) 1 \<noteq> Rejected" by blast
  have c2: "moveBlocker blocker_game ''a'' (0, 0) (2, 0) 1 = Rejected
    \<and> moveBlocker blocker_game ''a'' (0, 0) (0, 0) 1 = Rejected
    \<and> moveBlocker blocker_game ''b'' (0, 0) (1, 1) 1 = Rejected
    \<and> cell_at (board (room_after blocker_game (moveBlocker blocker_game ''a'' (0, 0) (1, 1) 1))) 1 1
         = Blocker
    \<and> turn (room_after blocker_game (moveBlocker blocker_game ''a'' (0, 0) (1, 1) 1)) = 1"
    by code_simp
  show ?thesis using h c1 c2 by blast
qed

text \<open>
  The claim as first stated fails: after Bob has left the room of \<open>blocker_game\<close>, the game
  is not started (and not over), and Ann's move of the blocker from (0,0) to (0,1) is
  accepted all the same.
\<close>

theorem C8_moveBlocker_not_started_counterexample:
  "map_option
     (\<lambda>g. (started g, gameOver g,
            moveBlocker g ''a'' (0, 0) (0, 1) 2 = Rejected,
            cell_at (board (room_after g (moveBlocker g ''a'' (0, 0) (0, 1) 2))) 0 0,
            cell_at (board (room_after g (moveBlocker g ''a'' (0, 0) (0, 1) 2))) 0 1))
     (fst (leaveRoom (Map.empty(''ROOM'' \<mapsto> blocker_game)) ''ROOM'' ''b'' 1) ''ROOM'')
   = Some (False, False, False, Empty, Blocker)"
  by code_simp

section \<open>Settings of a new game\<close>

text \<open>
  Claim C9 fails on values that \<^verbatim>\<open>parseInt\<close> cannot read. Ann, a seated member, asks for a
  new game with the strings \<^verbatim>\<open>'abc'\<close>, \<^verbatim>\<open>'many'\<close> and \<^verbatim>\<open>''\<close> for the three settings: the
  request is accepted, and all three settings, and with them every stock, are \<^verbatim>\<open>NaN\<close>, not
  integers of the ranges.
\<close>

theorem C9_newGame_stores_NaN:
  "let out = newGame two_player_lobby ''a'' (JVal (units ''abc'')) (JVal (units ''many'')) (JVal []) (\<lambda>k. 0) 1;
       g = room_after two_player_lobby out
   in out \<noteq> Rejected
    \<and> settings g = \<lparr> tilesPerSymbol = NaN, blockers = NaN, pointsToWin = NaN \<rparr>
    \<and> stock g = [Stock NaN NaN NaN, Stock NaN NaN NaN]
    \<and> started g \<and> board g = createEmptyBoard"
  by code_simp

text \<open>What does hold: a missing value and \<^verbatim>\<open>null\<close> end in the range, and any other value
  ends in the range or in \<^verbatim>\<open>NaN\<close>.\<close>

lemma clamp_parseInt_or_cases:
  assumes "lo \<le> hi"
  shows "(\<exists>x. clamp lo hi (parseInt_or v dflt) = Num x \<and> lo \<le> x \<and> x \<le> hi)
       \<or> ((\<exists>str. v = JVal str) \<and> clamp lo hi (parseInt_or v dflt) = NaN)"
proof (cases v)
  case (JVal str)
  then show ?thesis using assms by (cases "parseInt_str str") auto
qed (use assms in auto)

lemma clamp_parseInt_or_missing:
  assumes "lo \<le> hi" and "v = Undefined \<or> v = Null"
  shows "\<exists>x. clamp lo hi (parseInt_or v dflt) = Num x \<and> lo \<le> x \<and> x \<le> hi"
  using assms by auto

section \<open>Leaving a room\<close>

text \<open>
  Claim C10. Let the socket be seated in the room at index \<open>pIdx\<close> (the first player entry
  with its id). If it is the only player, \<open>leaveRoom\<close> deletes the room from the registry,
  whatever the spectators, and emits nothing. Otherwise the room stays, with exactly the
  entry at \<open>pIdx\<close> removed from the players, the scores and the stock, the board unchanged
  (the pieces keep their owner indices while the later seats move down by one), and
  \<open>started\<close> and \<open>gameOver\<close> both false. Other rooms are not touched.
\<close>

theorem C10_leaveRoom_frees_seat:
  assumes "rs rid = Some room"
    and "findIndex (\<lambda>p. socketId p = sock) (players room) = Some pIdx"
  shows "pIdx < length (players room) \<and> socketId (players room ! pIdx) = sock
    \<and> (\<forall>rid'. rid' \<noteq> rid \<longrightarrow> fst (leaveRoom rs rid sock now) rid' = rs rid')
    \<and> (length (players room) = 1 \<longrightarrow> leaveRoom rs rid sock now = (rs(rid := None), None))
    \<and> (length (players room) \<noteq> 1 \<longrightarrow>
         (\<exists>room'. fst (leaveRoom rs rid sock now) rid = Some room'
            \<and> players room' = take pIdx (players room) @ drop (Suc pIdx) (players room)
            \<and> scores room' = take pIdx (scores room) @ drop (Suc pIdx) (scores room)
            \<and> stock room' = take pIdx (stock room) @ drop (Suc pIdx) (stock room)
            \<and> (\<forall>k<pIdx. players room' ! k = players room ! k)
            \<and> (\<forall>k. pIdx \<le> k \<and> Suc k < length (players room) \<longrightarrow>
                   players room' ! k = players room ! Suc k)
            \<and> board room' = board room
            \<and> \<not> started room' \<and> \<not> gameOver room'))"
proof -
  note fi = findIndex_Some[OF assms(2)]
  let ?room1 = "case findIndex (\<lambda>p. socketId p = sock) (spectators room) of
                    Some sIdx \<Rightarrow> room\<lparr> spectators := splice1 sIdx (spectators room) \<rparr>
                  | None \<Rightarrow> room"
  have p1: "players ?room1 = players room" "scores ?room1 = scores room"
    "stock ?room1 = stock room" "board ?room1 = board room"
    by (simp_all split: option.splits)
  have len: "length (splice1 pIdx (players room)) = length (players room) - 1"
    using fi by (simp add: splice1_def)
  have other: "fst (leaveRoom rs rid sock now) rid' = rs rid'" if "rid' \<noteq> rid" for rid'
    using that assms(1)
    by (simp add: leaveRoom_def Let_def emitRoomStateOnce_def p1 assms(2) split: option.splits)
  have single: "leaveRoom rs rid sock now = (rs(rid := None), None)" if "length (players room) = 1"
    using that assms(1) len
    by (simp add: leaveRoom_def Let_def emitRoomStateOnce_def p1 assms(2) split: option.splits)
  have several: "\<exists>room'. fst (leaveRoom rs rid sock now) rid = Some room'
            \<and> players room' = take pIdx (players room) @ drop (Suc pIdx) (players room)
            \<and> scores room' = take pIdx (scores room) @ drop (Suc pIdx) (scores room)
            \<and> stock room' = take pIdx (stock room) @ drop (Suc pIdx) (stock room)
            \<and> board room' = board room
            \<and> \<not> started room' \<and> \<not> gameOver room'" if "length (players room) \<noteq> 1"
  proof -
    from that fi have "length (players room) - 1 \<noteq> 0" by arith
    with len have ne: "splice1 pIdx (players room) \<noteq> []" by auto
    have "\<exists>room'. fst (leaveRoom rs rid sock now) rid = Some room'
            \<and> players room' = splice1 pIdx (players room)
            \<and> scores room' = splice1 pIdx (scores room)
            \<and> stock room' = splice1 pIdx (stock room)
            \<and> board room' = board room
            \<and> \<not> started room' \<and> \<not> gameOver room'"
      using assms(1)
      by (simp add: leaveRoom_def Let_def emitRoomStateOnce_def p1 assms(2) len ne
            split: option.splits)
    then show ?thesis by (simp only: splice1_def)
  qed
  have low: "(take pIdx (players room) @ drop (Suc pIdx) (players room)) ! k = players room ! k"
    if "k < pIdx" for k
    using that fi by (simp add: nth_append)
  have high: "(take pIdx (players room) @ drop (Suc pIdx) (players room)) ! k = players room ! Suc k"
    if "pIdx \<le> k" "Suc k < length (players room)" for k
    using that fi by (simp add: nth_append min_def)
  show ?thesis
  proof (intro conjI allI impI)
    show "pIdx < length (players room)" using fi by simp
    show "socketId (players room ! pIdx) = sock" using fi by simp
  next
    fix rid' assume "rid' \<noteq> rid"
    then show "fst (leaveRoom rs rid sock now) rid' = rs rid'" by (rule other)
  next
    assume "length (players room) = 1"
    then show "leaveRoom rs rid sock now = (rs(rid := None), None)" by (rule single)
  next
    assume "length (players room) \<noteq> 1"
    from several[OF this] obtain room' where r: "fst (leaveRoom rs rid sock now) rid = Some room'"
      "players room' = take pIdx (players room) @ drop (Suc pIdx) (players room)"
      "scores room' = take pIdx (scores room) @ drop (Suc pIdx) (scores room)"
      "stock room' = take pIdx (stock room) @ drop (Suc pIdx) (stock room)"
      "board room' = board room" "\<not> started room'" "\<not> gameOver room'" by blast
    show "\<exists>room'. fst (leaveRoom rs rid sock now) rid = Some room'
            \<and> players room' = take pIdx (players room) @ drop (Suc pIdx) (players room)
            \<and> scores room' = take pIdx (scores room) @ drop (Suc pIdx) (scores room)
            \<and> stock room' = take pIdx (stock room) @ drop (Suc pIdx) (stock room)
            \<and> (\<forall>k<pIdx. players room' ! k = players room ! k)
            \<and> (\<forall>k. pIdx \<le> k \<and> Suc k < length (players room) \<longrightarrow>
                   players room' ! k = players room ! Suc k)
            \<and> board room' = board room
            \<and> \<not> started room' \<and> \<not> gameOver room'"
      using r low high by (intro exI[of _ room']) simp
  qed
qed

theorem C10_leaveRoom_witness:
  "(Map.empty(''ROOM'' \<mapsto> blocker_game)) ''ROOM'' = Some blocker_game
    \<and> findIndex (\<lambda>p. socketId p = ''b'') (players blocker_game) = Some 1
    \<and> 1 < length (players blocker_game)
    \<and> socketId (players blocker_game ! 1) = ''b''
    \<and> length (players blocker_game) \<noteq> 1
    \<and> map_option (\<lambda>g. (map socketId (players g), scores g, length (stock g), board g = board blocker_game,
                       started g, gameOver g))
         (fst (leaveRoom (Map.empty(''ROOM'' \<mapsto> blocker_game)) ''ROOM'' ''b'' 1) ''ROOM'')
       = Some ([''a''], [Some (Num 0)], 1, True, False, False)
    \<and> started blocker_game"
proof -
  have h1: "(Map.empty(''ROOM'' \<mapsto> blocker_game)) ''ROOM'' = Some blocker_game" by simp
  have h2: "findIndex (\<lambda>p. socketId p = ''b'') (players blocker_game) = Some 1" by code_simp
  note c = C10_leaveRoom_frees_seat[where rs = "Map.empty(''ROOM'' \<mapsto> blocker_game)"
      and rid = "''ROOM''" and room = blocker_game and sock = "''b''" and pIdx = 1 and now = 1,
      OF h1 h2]
  from c have c1: "1 < length (players blocker_game)" by (rule conjunct1)
  from c have c2: "socketId (players blocker_game ! 1) = ''b''" by (elim conjE)
  have c3: "length (players blocker_game) \<noteq> 1" by code_simp
  have c4: "map_option (\<lambda>g. (map socketId (players g), scores g, length (stock g), board g = board blocker_game,
                       started g, gameOver g))
         (fst (leaveRoom (Map.empty(''ROOM'' \<mapsto> blocker_game)) ''ROOM'' ''b'' 1) ''ROOM'')
       = Some ([''a''], [Some (Num 0)], 1, True, False, False)" by code_simp
  have c5: "started blocker_game" by code_simp
  show ?thesis using h1 h2 c1 c2 c3 c4 c5 by (intro conjI)
qed

end
